theory Spec2Isabelle
  imports Main
begin

section \<open>The pagination handler of synapse/handlers/pagination.py\<close>

text \<open>
  A shallow embedding of \<^verbatim>\<open>PurgeStatus\<close> and \<^verbatim>\<open>PaginationHandler\<close>. The handler's
  attributes are fields of the record \<open>handler\<close>; every method takes the handler and
  returns the handler it leaves behind together with its result. An exception is a value
  of type \<open>error\<close>. The storage, the clock, the random generator and the other
  collaborators are not part of the file: their replies are parameters.
\<close>

subsection \<open>Errors and decimal formatting\<close>

datatype error =
    SynapseError nat string
  | KeyError string
  | TypeError
  | CollaboratorError string

text \<open>Python's \<^verbatim>\<open>"%d" % n\<close> for an int: decimal digits, with a minus sign below zero.\<close>

definition digit :: "nat \<Rightarrow> char" where
  "digit n = ''0123456789'' ! (n mod 10)"

function show_nat :: "nat \<Rightarrow> string" where
  "show_nat n = (if n < 10 then [digit n] else show_nat (n div 10) @ [digit n])"
  by pat_completeness auto
termination
  by (relation "measure (\<lambda>n. n)") auto

definition show_int :: "int \<Rightarrow> string" where
  "show_int i = (if i < 0 then CHR ''-'' # show_nat (nat (- i)) else show_nat (nat i))"

subsection \<open>PurgeStatus\<close>

text \<open>
  A \<^verbatim>\<open>PurgeStatus\<close> object has the single attribute \<^verbatim>\<open>status\<close>, one of the three class
  constants; the object is modelled by that value. \<^verbatim>\<open>__init__\<close> sets it to
  \<^verbatim>\<open>STATUS_ACTIVE\<close>.
\<close>

datatype PurgeStatus = STATUS_ACTIVE | STATUS_COMPLETE | STATUS_FAILED

definition PurgeStatus_init :: PurgeStatus where
  "PurgeStatus_init = STATUS_ACTIVE"

fun STATUS_TEXT :: "PurgeStatus \<Rightarrow> string" where
  "STATUS_TEXT STATUS_ACTIVE = ''active''"
| "STATUS_TEXT STATUS_COMPLETE = ''complete''"
| "STATUS_TEXT STATUS_FAILED = ''failed''"

definition asdict :: "PurgeStatus \<Rightarrow> (string \<times> string) list" where
  "asdict st = [(''status'', STATUS_TEXT st)]"

subsection \<open>The handler's state\<close>

text \<open>
  The arguments of one call of \<^verbatim>\<open>_purge_history\<close>. A call that has been started and is
  suspended at the storage purge is an entry of \<open>background\<close>.
\<close>

record purge_task =
  task_purge_id :: string
  task_room_id :: string
  task_token :: string
  task_delete_local_events :: bool

text \<open>
  The calls of the two storage primitives that delete. A call enters the log when it has
  returned or raised, so the log is in the order the calls ended: a storage purge that
  is still running is not in it.
\<close>

datatype storage_call =
    PurgeHistoryCall string string bool
  | PurgeRoomCall string

text \<open>
  \<open>purges_in_progress_by_room\<close>, \<open>purges_by_id\<close>, \<open>retention_default_max_lifetime\<close> and
  \<open>server_name\<close> are the attributes of the same names. The rest is the runtime the
  handler acts on: the suspended \<^verbatim>\<open>_purge_history\<close> calls, the reactor's clock in
  seconds, the reactor's pending \<^verbatim>\<open>callLater\<close> entries (the time each is due and the
  purge id its \<^verbatim>\<open>clear_purge\<close> closes over), and the log of the deleting storage calls
  that have ended.
\<close>

record handler =
  purges_in_progress_by_room :: "string set"
  purges_by_id :: "string \<rightharpoonup> PurgeStatus"
  retention_default_max_lifetime :: "int option"
  server_name :: string
  background :: "purge_task list"
  reactor_seconds :: nat
  delayed_calls :: "(nat \<times> string) list"
  storage_log :: "storage_call list"

text \<open>
  The handler \<^verbatim>\<open>__init__\<close> leaves behind: no purge in progress, an empty table, the
  default lifetime of the configuration and the server's host name.
\<close>

definition new_handler :: "int option \<Rightarrow> string \<Rightarrow> handler" where
  "new_handler default_max_lifetime hostname =
     \<lparr>purges_in_progress_by_room = {}, purges_by_id = Map.empty,
      retention_default_max_lifetime = default_max_lifetime, server_name = hostname,
      background = [], reactor_seconds = 0, delayed_calls = [], storage_log = []\<rparr>"

definition get_purge_status :: "handler \<Rightarrow> string \<Rightarrow> PurgeStatus option" where
  "get_purge_status h purge_id = purges_by_id h purge_id"

subsection \<open>\<^verbatim>\<open>_purge_history\<close>\<close>

text \<open>
  \<^verbatim>\<open>_purge_history\<close> is a coroutine. Started by \<^verbatim>\<open>run_in_background\<close> or
  \<^verbatim>\<open>run_as_background_process\<close> it runs line 233 at once, asks for the room's write
  lock and calls the storage purge, where it is suspended: \<open>purge_history_begin\<close>. It
  resumes when the storage purge has returned or raised (\<open>outcome\<close>) and runs lines
  239 to 254: \<open>purge_history_end\<close>.
\<close>

datatype outcome = Returned | Raised

definition purge_history_begin :: "purge_task \<Rightarrow> handler \<Rightarrow> handler" where
  "purge_history_begin task h =
     h\<lparr>purges_in_progress_by_room := insert (task_room_id task) (purges_in_progress_by_room h),
       background := background h @ [task]\<rparr>"

text \<open>\<^verbatim>\<open>self._purges_by_id[purge_id].status = s\<close>: a KeyError when the id is not in the table.\<close>

definition set_status :: "string \<Rightarrow> PurgeStatus \<Rightarrow> handler \<Rightarrow> error + handler" where
  "set_status purge_id s h =
     (case purges_by_id h purge_id of
        None \<Rightarrow> Inl (KeyError purge_id)
      | Some _ \<Rightarrow> Inr (h\<lparr>purges_by_id := (purges_by_id h)(purge_id \<mapsto> s)\<rparr>))"

text \<open>
  The \<^verbatim>\<open>try\<close> statement of lines 234 to 254. An exception of the \<^verbatim>\<open>try\<close> body, also
  the KeyError of line 240, is handled by the \<^verbatim>\<open>except\<close> clause; an exception of the
  \<^verbatim>\<open>except\<close> clause leaves the coroutine after the \<^verbatim>\<open>finally\<close> clause has run. The
  storage call of line 236, made once the write lock was granted, enters \<open>storage_log\<close>
  here, when it has ended.
\<close>

definition purge_history_end :: "purge_task \<Rightarrow> outcome \<Rightarrow> handler \<Rightarrow> handler \<times> error option" where
  "purge_history_end task oc h =
     (let logged = h\<lparr>storage_log := storage_log h @
            [PurgeHistoryCall (task_room_id task) (task_token task) (task_delete_local_events task)]\<rparr>;
          failed = (case set_status (task_purge_id task) STATUS_FAILED logged of
                      Inr h' \<Rightarrow> (h', None)
                    | Inl e \<Rightarrow> (logged, Some e));
          (h1, err) = (case oc of
                         Raised \<Rightarrow> failed
                       | Returned \<Rightarrow>
                           (case set_status (task_purge_id task) STATUS_COMPLETE logged of
                              Inr h' \<Rightarrow> (h', None)
                            | Inl _ \<Rightarrow> failed))
      in (h1\<lparr>purges_in_progress_by_room := purges_in_progress_by_room h1 - {task_room_id task},
             delayed_calls := delayed_calls h1 @ [(reactor_seconds h1 + 24 * 3600, task_purge_id task)]\<rparr>,
          err))"

text \<open>\<^verbatim>\<open>clear_purge\<close>, the callback of line 251: \<^verbatim>\<open>del\<close> raises a KeyError on a missing id.\<close>

definition clear_purge :: "string \<Rightarrow> handler \<Rightarrow> error + handler" where
  "clear_purge purge_id h =
     (case purges_by_id h purge_id of
        None \<Rightarrow> Inl (KeyError purge_id)
      | Some _ \<Rightarrow> Inr (h\<lparr>purges_by_id := (purges_by_id h)(purge_id := None)\<rparr>))"

subsection \<open>\<^verbatim>\<open>start_purge_history\<close>\<close>

text \<open>
  \<open>delete_local_events\<close> is the optional argument: \<open>None\<close> when the caller leaves it
  out, and then the default \<^verbatim>\<open>False\<close> is used. \<open>purge_id\<close> is what
  \<^verbatim>\<open>random_string(16)\<close> returns in this call.
\<close>

definition start_purge_history ::
  "handler \<Rightarrow> string \<Rightarrow> string \<Rightarrow> bool option \<Rightarrow> string \<Rightarrow> handler \<times> (error + string)" where
  "start_purge_history h room_id token delete_local_events purge_id =
     (if room_id \<in> purges_in_progress_by_room h then
        (h, Inl (SynapseError 400 (''History purge already in progress for '' @ room_id)))
      else
        (purge_history_begin
           \<lparr>task_purge_id = purge_id, task_room_id = room_id, task_token = token,
            task_delete_local_events = (case delete_local_events of None \<Rightarrow> False | Some b \<Rightarrow> b)\<rparr>
           (h\<lparr>purges_by_id := (purges_by_id h)(purge_id \<mapsto> PurgeStatus_init)\<rparr>),
         Inr purge_id))"

subsection \<open>\<^verbatim>\<open>purge_history_for_rooms_in_range\<close>\<close>

text \<open>Lines 120 to 131: whether rooms with no retention policy are asked for.\<close>

definition include_null :: "int option \<Rightarrow> int option \<Rightarrow> int option \<Rightarrow> bool" where
  "include_null default_max_lifetime min_ms max_ms =
     (case default_max_lifetime of
        None \<Rightarrow> False
      | Some d \<Rightarrow>
          (let inc = True;
               inc = (if min_ms \<noteq> None \<and> the min_ms \<ge> d then False else inc);
               inc = (if max_ms \<noteq> None \<and> the max_ms < d then False else inc)
           in inc))"

text \<open>
  The replies of the collaborators during one run of the job. The storage's dict of rooms
  is an association list in iteration order, each room with the \<^verbatim>\<open>max_lifetime\<close> of its
  policy. The loop reads the clock and draws a random string once in an iteration:
  \<open>time_msec env r\<close> and \<open>random_string env r\<close> are what it gets in the iteration for
  room \<open>r\<close>.
\<close>

record retention_env =
  get_rooms_for_retention_period_in_range ::
    "int option \<Rightarrow> int option \<Rightarrow> bool \<Rightarrow> error + (string \<times> int option) list"
  find_first_stream_ordering_after_ts :: "int \<Rightarrow> error + int"
  get_room_event_after_stream_ordering :: "string \<Rightarrow> int \<Rightarrow> error + (int \<times> int \<times> string) option"
  time_msec :: "string \<Rightarrow> int"
  random_string :: "string \<Rightarrow> string"

text \<open>
  The body of the loop, lines 138 to 187, for one item of the dict. \<open>None\<close> as the second
  component is an iteration that ended (also by \<^verbatim>\<open>continue\<close>); an error ends the job.
\<close>

definition purge_history_for_room ::
  "retention_env \<Rightarrow> handler \<Rightarrow> string \<times> int option \<Rightarrow> handler \<times> error option" where
  "purge_history_for_room env h item =
     (let room_id = fst item; policy_max_lifetime = snd item in
      if room_id \<in> purges_in_progress_by_room h then (h, None)
      else
        (case (case policy_max_lifetime of
                 None \<Rightarrow> retention_default_max_lifetime h
               | Some l \<Rightarrow> Some l) of
           None \<Rightarrow> (h, Some TypeError)
         | Some max_lifetime \<Rightarrow>
             (let ts = time_msec env room_id - max_lifetime in
              case find_first_stream_ordering_after_ts env ts of
                Inl e \<Rightarrow> (h, Some e)
              | Inr stream_ordering \<Rightarrow>
                  (case get_room_event_after_stream_ordering env room_id stream_ordering of
                     Inl e \<Rightarrow> (h, Some e)
                   | Inr None \<Rightarrow> (h, None)
                   | Inr (Some (stream, topo, event_id)) \<Rightarrow>
                       (let token = ''t'' @ show_int topo @ ''-'' @ show_int stream;
                            purge_id = random_string env room_id
                        in (purge_history_begin
                              \<lparr>task_purge_id = purge_id, task_room_id = room_id,
                               task_token = token, task_delete_local_events = True\<rparr>
                              (h\<lparr>purges_by_id := (purges_by_id h)(purge_id \<mapsto> PurgeStatus_init)\<rparr>),
                            None))))))"

text \<open>
  The loop of line 137 over the items of the dict. An exception in an iteration ends the
  loop. What other coroutines do while an iteration waits for the storage is not part of
  this function; \<open>step\<close> below takes one iteration at a time.
\<close>

fun purge_rooms_loop ::
  "retention_env \<Rightarrow> handler \<Rightarrow> (string \<times> int option) list \<Rightarrow> handler \<times> error option" where
  "purge_rooms_loop env h [] = (h, None)"
| "purge_rooms_loop env h (item # items) =
     (case purge_history_for_room env h item of
        (h', Some e) \<Rightarrow> (h', Some e)
      | (h', None) \<Rightarrow> purge_rooms_loop env h' items)"

definition purge_history_for_rooms_in_range ::
  "retention_env \<Rightarrow> handler \<Rightarrow> int option \<Rightarrow> int option \<Rightarrow> handler \<times> error option" where
  "purge_history_for_rooms_in_range env h min_ms max_ms =
     (case get_rooms_for_retention_period_in_range env min_ms max_ms
             (include_null (retention_default_max_lifetime h) min_ms max_ms) of
        Inl e \<Rightarrow> (h, Some e)
      | Inr rooms \<Rightarrow> purge_rooms_loop env h rooms)"

subsection \<open>\<^verbatim>\<open>purge_room\<close>\<close>

text \<open>
  The replies of the storage to the three calls of \<^verbatim>\<open>purge_room\<close>;
  \<^verbatim>\<open>get_room_version\<close> raises for a room the server does not know. The body runs
  while the call holds the room's write lock (line 269).
\<close>

record purge_room_env =
  get_room_version :: "string \<Rightarrow> error + string"
  is_host_joined :: "string \<Rightarrow> string \<Rightarrow> error + bool"
  storage_purge_room :: "string \<Rightarrow> error + unit"

definition purge_room :: "purge_room_env \<Rightarrow> handler \<Rightarrow> string \<Rightarrow> handler \<times> (error + unit)" where
  "purge_room env h room_id =
     (case get_room_version env room_id of
        Inl e \<Rightarrow> (h, Inl e)
      | Inr _ \<Rightarrow>
          (case is_host_joined env room_id (server_name h) of
             Inl e \<Rightarrow> (h, Inl e)
           | Inr joined \<Rightarrow>
               if joined then (h, Inl (SynapseError 400 ''Users are still joined to this room''))
               else (h\<lparr>storage_log := storage_log h @ [PurgeRoomCall room_id]\<rparr>,
                     storage_purge_room env room_id)))"


subsection \<open>\<^verbatim>\<open>get_messages\<close>\<close>

text \<open>
  The types \<^verbatim>\<open>get_messages\<close> works on are declared outside the file. A \<^verbatim>\<open>StreamToken\<close>
  has a room key beside the keys of the other streams; a \<^verbatim>\<open>RoomStreamToken\<close> has an
  optional topological part and a stream part; a \<^verbatim>\<open>PaginationConfig\<close> has the two
  tokens, the direction and the limit; the source config has the two keys, the
  direction and the limit.
\<close>

record stream_token =
  room_key :: string
  other_keys :: "string list"

record room_stream_token =
  topological :: "int option"
  stream :: int

record pagination_config =
  from_token :: "stream_token option"
  to_token :: "stream_token option"
  direction :: string
  limit :: int

record source_config =
  from_key :: string
  to_key :: "string option"
  source_direction :: string
  source_limit :: int

record event =
  event_id :: string
  sender :: string
  content :: string

record event_filter =
  filter_events :: "event list \<Rightarrow> event list"
  lazy_load_members :: bool

record response =
  chunk :: "string list"
  start :: string
  end_token :: string
  state :: "string list option"

text \<open>\<^verbatim>\<open>token.copy_and_replace("room_key", v)\<close>: a copy of the token with the room key replaced.\<close>

definition copy_and_replace_room_key :: "stream_token \<Rightarrow> string \<Rightarrow> stream_token" where
  "copy_and_replace_room_key token v = token\<lparr>room_key := v\<rparr>"

text \<open>
  The replies of the collaborators during one call: the event sources, the token parser
  and printer (\<^verbatim>\<open>RoomStreamToken.parse\<close>, \<^verbatim>\<open>str\<close>, \<^verbatim>\<open>to_string\<close>),
  \<^verbatim>\<open>get_source_config\<close>, the auth check, the storage, the federation handler, the
  visibility filter, the state store, the serializer and the clock.
\<close>

record collaborators =
  get_current_token_for_pagination :: "error + stream_token"
  parse :: "string \<Rightarrow> error + room_stream_token"
  str_room_token :: "room_stream_token \<Rightarrow> string"
  to_string :: "stream_token \<Rightarrow> string"
  get_source_config :: "pagination_config \<Rightarrow> string \<Rightarrow> source_config"
  check_in_room_or_world_readable :: "string \<Rightarrow> string \<Rightarrow> error + (string \<times> string option)"
  get_max_topological_token :: "string \<Rightarrow> int \<Rightarrow> error + int"
  get_topological_token_for_event :: "string option \<Rightarrow> error + string"
  maybe_backfill :: "string \<Rightarrow> int \<Rightarrow> error + unit"
  paginate_room_events ::
    "string \<Rightarrow> string \<Rightarrow> string option \<Rightarrow> string \<Rightarrow> int \<Rightarrow> event_filter option
       \<Rightarrow> error + (event list \<times> string)"
  filter_events_for_client :: "string \<Rightarrow> event list \<Rightarrow> bool \<Rightarrow> error + event list"
  get_state_ids_for_event ::
    "string \<Rightarrow> (string \<times> string) list \<Rightarrow> error + ((string \<times> string) \<times> string) list"
  get_events :: "string list \<Rightarrow> error + event list"
  serialize_events :: "event list \<Rightarrow> int \<Rightarrow> bool \<Rightarrow> error + string list"
  clock_time_msec :: int

text \<open>
  Lines 305 to 317. The caller's config is changed in place: the first component of the
  result is the config as the lines leave it. On success the second component is the
  parsed room token and the token now in \<open>from_token\<close>.
\<close>

definition resolve_room_token ::
  "collaborators \<Rightarrow> pagination_config \<Rightarrow> pagination_config \<times> (error + room_stream_token \<times> stream_token)" where
  "resolve_room_token col pagin_config =
     (case (case from_token pagin_config of
              Some token \<Rightarrow> (pagin_config, Inr token)
            | None \<Rightarrow>
                (case get_current_token_for_pagination col of
                   Inl e \<Rightarrow> (pagin_config, Inl e)
                 | Inr token \<Rightarrow> (pagin_config\<lparr>from_token := Some token\<rparr>, Inr token))) of
        (pc, Inl e) \<Rightarrow> (pc, Inl e)
      | (pc, Inr token) \<Rightarrow>
          (case parse col (room_key token) of
             Inl e \<Rightarrow> (pc, Inl e)
           | Inr room_token \<Rightarrow>
               (let token' = copy_and_replace_room_key token (str_room_token col room_token)
                in (pc\<lparr>from_token := Some token'\<rparr>, Inr (room_token, token')))))"

text \<open>
  Lines 337 to 346, for a requester whose membership is \<^verbatim>\<open>leave\<close>. Comparing a token
  with no topological part to \<open>max_topo\<close> is a TypeError.
\<close>

definition clamp_to_leave ::
  "collaborators \<Rightarrow> string option \<Rightarrow> int \<Rightarrow> source_config \<Rightarrow> source_config \<times> (error + unit)" where
  "clamp_to_leave col member_event_id max_topo sc =
     (case get_topological_token_for_event col member_event_id of
        Inl e \<Rightarrow> (sc, Inl e)
      | Inr leave \<Rightarrow>
          (case parse col leave of
             Inl e \<Rightarrow> (sc, Inl e)
           | Inr leave_token \<Rightarrow>
               (case topological leave_token of
                  None \<Rightarrow> (sc, Inl TypeError)
                | Some leave_topo \<Rightarrow>
                    if leave_topo < max_topo
                    then (sc\<lparr>from_key := str_room_token col leave_token\<rparr>, Inr ())
                    else (sc, Inr ()))))"

text \<open>
  Lines 330 to 335: the topological part of the room token is used when it is neither
  \<^verbatim>\<open>None\<close> nor zero; otherwise the storage is asked.
\<close>

definition resolve_max_topo :: "collaborators \<Rightarrow> string \<Rightarrow> room_stream_token \<Rightarrow> error + int" where
  "resolve_max_topo col room_id room_token =
     (case topological room_token of
        Some t \<Rightarrow>
          if t \<noteq> 0 then Inr t else get_max_topological_token col room_id (stream room_token)
      | None \<Rightarrow> get_max_topological_token col room_id (stream room_token))"

text \<open>Lines 327 to 350, the branch for \<^verbatim>\<open>direction == "b"\<close>.\<close>

definition backward_branch ::
  "collaborators \<Rightarrow> string \<Rightarrow> room_stream_token \<Rightarrow> string \<Rightarrow> string option \<Rightarrow> source_config
     \<Rightarrow> source_config \<times> (error + unit)" where
  "backward_branch col room_id room_token membership member_event_id sc =
     (case resolve_max_topo col room_id room_token of
        Inl e \<Rightarrow> (sc, Inl e)
      | Inr max_topo \<Rightarrow>
          (case (if membership = ''leave'' then clamp_to_leave col member_event_id max_topo sc
                 else (sc, Inr ())) of
             (sc', Inl e) \<Rightarrow> (sc', Inl e)
           | (sc', Inr _) \<Rightarrow> (sc', maybe_backfill col room_id max_topo)))"

text \<open>
  Lines 321 to 361, the block that runs under the room's read lock: the auth check, the
  backward branch and the read of the page. On success the result is the member event
  id, the page and the storage's next key.
\<close>

definition read_page ::
  "collaborators \<Rightarrow> string \<Rightarrow> string \<Rightarrow> room_stream_token \<Rightarrow> event_filter option \<Rightarrow> source_config
     \<Rightarrow> source_config \<times> (error + string option \<times> event list \<times> string)" where
  "read_page col user_id room_id room_token evfilter sc =
     (case check_in_room_or_world_readable col room_id user_id of
        Inl e \<Rightarrow> (sc, Inl e)
      | Inr (membership, member_event_id) \<Rightarrow>
          (case (if source_direction sc = ''b''
                 then backward_branch col room_id room_token membership member_event_id sc
                 else (sc, Inr ())) of
             (sc', Inl e) \<Rightarrow> (sc', Inl e)
           | (sc', Inr _) \<Rightarrow>
               (case paginate_room_events col room_id (from_key sc') (to_key sc')
                       (source_direction sc') (source_limit sc') evfilter of
                  Inl e \<Rightarrow> (sc', Inl e)
                | Inr (events, next_key) \<Rightarrow> (sc', Inr (member_event_id, events, next_key)))))"

text \<open>Lines 363 to 369: the two filters, applied to a page that is not empty.\<close>

definition filter_page ::
  "collaborators \<Rightarrow> string \<Rightarrow> event_filter option \<Rightarrow> string option \<Rightarrow> event list \<Rightarrow> error + event list" where
  "filter_page col user_id evfilter member_event_id events =
     (if events \<noteq> [] then
        filter_events_for_client col user_id
          (case evfilter of None \<Rightarrow> events | Some f \<Rightarrow> filter_events f events)
          (member_event_id = None)
      else Inr events)"

text \<open>Lines 378 to 393: the member state of the senders, when the filter asks for it.\<close>

definition load_state ::
  "collaborators \<Rightarrow> event_filter option \<Rightarrow> event list \<Rightarrow> error + event list option" where
  "load_state col evfilter events =
     (case evfilter of
        None \<Rightarrow> Inr None
      | Some f \<Rightarrow>
          if lazy_load_members f \<and> length events > 0 then
            (case events of
               [] \<Rightarrow> Inr None
             | first # _ \<Rightarrow>
                 (case get_state_ids_for_event col (event_id first)
                         (map (\<lambda>ev. (''m.room.member'', sender ev)) events) of
                    Inl e \<Rightarrow> Inl e
                  | Inr state_ids \<Rightarrow>
                      if state_ids \<noteq> [] then
                        (case get_events col (map snd state_ids) of
                           Inl e \<Rightarrow> Inl e
                         | Inr evs \<Rightarrow> Inr (Some evs))
                      else Inr None))
          else Inr None)"

text \<open>Lines 371 to 412: the reply, for the page that is left after the filters.\<close>

definition build_response ::
  "collaborators \<Rightarrow> bool \<Rightarrow> event_filter option \<Rightarrow> stream_token \<Rightarrow> stream_token \<Rightarrow> event list
     \<Rightarrow> error + response" where
  "build_response col as_client_event evfilter token next_token events =
     (if events = [] then
        Inr \<lparr>chunk = [], start = to_string col token, end_token = to_string col next_token,
             state = None\<rparr>
      else
        (case load_state col evfilter events of
           Inl e \<Rightarrow> Inl e
         | Inr st \<Rightarrow>
             (let time_now = clock_time_msec col in
              case serialize_events col events time_now as_client_event of
                Inl e \<Rightarrow> Inl e
              | Inr serialized \<Rightarrow>
                  (let reply = \<lparr>chunk = serialized, start = to_string col token,
                                 end_token = to_string col next_token, state = None\<rparr>
                   in case st of
                        None \<Rightarrow> Inr reply
                      | Some evs \<Rightarrow>
                          if evs \<noteq> [] then
                            (case serialize_events col evs time_now as_client_event of
                               Inl e \<Rightarrow> Inl e
                             | Inr s \<Rightarrow> Inr (reply\<lparr>state := Some s\<rparr>))
                          else Inr reply))))"

text \<open>
  The two objects the call changes in place, as the call leaves them: the caller's
  pagination config, and the source config of line 319 once it exists.
\<close>

record call_state =
  pagin_config_after :: pagination_config
  source_config_after :: "source_config option"

text \<open>
  \<^verbatim>\<open>get_messages\<close>. \<open>requester\<close> is the user id of the requester. The result is the two
  objects as they are when the call returns or raises, and the reply or the error.
\<close>

definition get_messages ::
  "collaborators \<Rightarrow> string \<Rightarrow> string \<Rightarrow> pagination_config \<Rightarrow> bool \<Rightarrow> event_filter option
     \<Rightarrow> call_state \<times> (error + response)" where
  "get_messages col requester room_id pagin_config as_client_event evfilter =
     (case resolve_room_token col pagin_config of
        (pc, Inl e) \<Rightarrow> (\<lparr>pagin_config_after = pc, source_config_after = None\<rparr>, Inl e)
      | (pc, Inr (room_token, token)) \<Rightarrow>
          (case read_page col requester room_id room_token evfilter (get_source_config col pc ''room'') of
             (sc, Inl e) \<Rightarrow> (\<lparr>pagin_config_after = pc, source_config_after = Some sc\<rparr>, Inl e)
           | (sc, Inr (member_event_id, events, next_key)) \<Rightarrow>
               (\<lparr>pagin_config_after = pc, source_config_after = Some sc\<rparr>,
                (case filter_page col requester evfilter member_event_id events of
                   Inl e \<Rightarrow> Inl e
                 | Inr events' \<Rightarrow>
                     build_response col as_client_event evfilter token
                       (copy_and_replace_room_key token next_key) events'))))"

subsection \<open>The handler over time\<close>

text \<open>
  The reactor runs a delayed call once its time has come; an exception of the callback
  is logged by the reactor and changes nothing.
\<close>

definition fire :: "nat \<times> string \<Rightarrow> handler \<Rightarrow> handler" where
  "fire call h = (case clear_purge (snd call) h of Inr h' \<Rightarrow> h' | Inl e \<Rightarrow> h)"

text \<open>
  \<open>d\<close> seconds pass on the reactor: the delayed calls that are due by then run, in the
  order they were registered, and leave the reactor's list.
\<close>

definition reactor_advance :: "nat \<Rightarrow> handler \<Rightarrow> handler" where
  "reactor_advance d h =
     (let now = reactor_seconds h + d in
      fold fire (filter (\<lambda>c. fst c \<le> now) (delayed_calls h))
        (h\<lparr>reactor_seconds := now,
           delayed_calls := filter (\<lambda>c. \<not> fst c \<le> now) (delayed_calls h)\<rparr>))"

text \<open>
  What can happen to a handler: a call of \<^verbatim>\<open>start_purge_history\<close>, one iteration of
  the retention loop, the storage purge of a suspended \<^verbatim>\<open>_purge_history\<close> returning or
  raising, time passing on the reactor, and a call of \<^verbatim>\<open>purge_room\<close>.
\<close>

datatype action =
    StartPurge string string "bool option" string
  | RetentionIteration retention_env "string \<times> int option"
  | PurgeFinished string outcome
  | TimePasses nat
  | PurgeRoom purge_room_env string

fun step :: "handler \<Rightarrow> action \<Rightarrow> handler" where
  "step h (StartPurge room_id token delete_local_events purge_id) =
     fst (start_purge_history h room_id token delete_local_events purge_id)"
| "step h (RetentionIteration env item) = fst (purge_history_for_room env h item)"
| "step h (PurgeFinished purge_id oc) =
     (case find (\<lambda>t. task_purge_id t = purge_id) (background h) of
        None \<Rightarrow> h
      | Some task \<Rightarrow>
          fst (purge_history_end task oc (h\<lparr>background := remove1 task (background h)\<rparr>)))"
| "step h (TimePasses d) = reactor_advance d h"
| "step h (PurgeRoom env room_id) = fst (purge_room env h room_id)"

fun run :: "handler \<Rightarrow> action list \<Rightarrow> handler" where
  "run h [] = h"
| "run h (a # as) = run (step h a) as"

text \<open>The string \<^verbatim>\<open>random_string\<close> returns in an action that draws one.\<close>

fun drawn_id :: "action \<Rightarrow> string option" where
  "drawn_id (StartPurge room_id token delete_local_events purge_id) = Some purge_id"
| "drawn_id (RetentionIteration env item) = Some (random_string env (fst item))"
| "drawn_id _ = None"

definition drawn_ids :: "action list \<Rightarrow> string list" where
  "drawn_ids as = List.map_filter drawn_id as"

text \<open>The status line 240 sets after a storage purge that returned, and line 246 after one that raised.\<close>

definition terminal :: "outcome \<Rightarrow> PurgeStatus" where
  "terminal oc = (case oc of Returned \<Rightarrow> STATUS_COMPLETE | Raised \<Rightarrow> STATUS_FAILED)"

subsection \<open>The pagination lock\<close>

text \<open>
  The lock each method takes on the room it works on: \<^verbatim>\<open>_purge_history\<close> (line 235)
  and \<^verbatim>\<open>purge_room\<close> (line 269) call \<^verbatim>\<open>pagination_lock.write(room_id)\<close>,
  \<^verbatim>\<open>get_messages\<close> (line 321) calls \<^verbatim>\<open>pagination_lock.read(room_id)\<close>.
\<close>

datatype lock_mode = Read | Write

datatype locking_method = PurgeHistoryMethod | PurgeRoomMethod | GetMessagesMethod

fun pagination_lock_mode :: "locking_method \<Rightarrow> lock_mode" where
  "pagination_lock_mode PurgeHistoryMethod = Write"
| "pagination_lock_mode PurgeRoomMethod = Write"
| "pagination_lock_mode GetMessagesMethod = Read"

text \<open>
  Modelled from the spec: the class \<^verbatim>\<open>ReadWriteLock\<close> of \<^verbatim>\<open>synapse.util.async_helpers\<close>
  is not among the sources. The spec (4.1, and RoomLockState in 3) gives it as a lock
  keyed by room: per room the current holders and a first-in first-out queue of the
  acquisitions that wait; several readers may hold a room together; a writer is let in
  only when nobody holds the room and then excludes readers and writers until it
  releases; once somebody waits, later acquisitions queue behind. A room never locked
  has no holder and an empty queue. Callers are told apart by a number.
\<close>

record room_lock =
  holders :: "(nat \<times> lock_mode) list"
  waiting :: "(nat \<times> lock_mode) list"

text \<open>Modelled from the spec: a room nobody has locked; its emptiness is the unlocked state.\<close>

definition unlocked :: room_lock where
  "unlocked = \<lparr>holders = [], waiting = []\<rparr>"

text \<open>
  Modelled from the spec: a reader may join holders that are all readers; a writer may
  enter only when nobody holds the room.
\<close>

fun compatible :: "lock_mode \<Rightarrow> (nat \<times> lock_mode) list \<Rightarrow> bool" where
  "compatible Read hs = list_all (\<lambda>h. snd h = Read) hs"
| "compatible Write hs = (hs = [])"

text \<open>
  Modelled from the spec: the waiting acquisitions are let in in order, until the first
  that has to keep waiting.
\<close>

fun admit :: "(nat \<times> lock_mode) list \<Rightarrow> (nat \<times> lock_mode) list \<Rightarrow> room_lock" where
  "admit hs [] = \<lparr>holders = hs, waiting = []\<rparr>"
| "admit hs (w # ws) =
     (if compatible (snd w) hs then admit (hs @ [w]) ws
      else \<lparr>holders = hs, waiting = w # ws\<rparr>)"

text \<open>
  Modelled from the spec: an acquisition joins the end of the queue and is let in at once
  when nobody waits before it and the holders allow it; otherwise it blocks.
\<close>

definition acquire :: "nat \<Rightarrow> lock_mode \<Rightarrow> room_lock \<Rightarrow> room_lock" where
  "acquire c m l = admit (holders l) (waiting l @ [(c, m)])"

text \<open>
  Modelled from the spec: releasing the handle takes the caller out of the holders and
  lets in whoever can now enter.
\<close>

definition release :: "nat \<Rightarrow> room_lock \<Rightarrow> room_lock" where
  "release c l = admit (filter (\<lambda>h. fst h \<noteq> c) (holders l)) (waiting l)"

text \<open>
  Modelled from the spec: the lock table of all rooms, and what callers do to it. A
  method acquires the lock of its room in the mode the code gives it.
\<close>

datatype lock_action =
    Acquire nat locking_method string
  | Release nat string

fun lock_step :: "(string \<Rightarrow> room_lock) \<Rightarrow> lock_action \<Rightarrow> (string \<Rightarrow> room_lock)" where
  "lock_step locks (Acquire c meth room_id) =
     locks(room_id := acquire c (pagination_lock_mode meth) (locks room_id))"
| "lock_step locks (Release c room_id) = locks(room_id := release c (locks room_id))"

fun lock_run :: "(string \<Rightarrow> room_lock) \<Rightarrow> lock_action list \<Rightarrow> (string \<Rightarrow> room_lock)" where
  "lock_run locks [] = locks"
| "lock_run locks (a # as) = lock_run (lock_step locks a) as"

section \<open>The retention job\<close>

subsection \<open>Which rooms without a policy are included\<close>

text \<open>
  C2. The flag computed by lines 120 to 131 is true exactly when a default lifetime \<open>d\<close>
  is configured, it is not the case that the lower limit is set and \<open>d\<close> is at most it, and
  it is not the case that the upper limit is set and \<open>d\<close> is above it. With no default
  the flag is false.
\<close>

theorem include_null_iff:
  "include_null D min_ms max_ms =
     (\<exists>d. D = Some d \<and> \<not> (\<exists>m. min_ms = Some m \<and> d \<le> m) \<and> \<not> (\<exists>m. max_ms = Some m \<and> d > m))
   \<and> include_null None min_ms max_ms = False"
  by (auto simp: include_null_def split: option.splits)

theorem include_null_iff_witness:
  "include_null (Some 1000) (Some 500) (Some 2000)
   \<and> \<not> include_null (Some 1000) (Some 1000) (Some 2000)
   \<and> \<not> include_null (Some 1000) (Some 0) (Some 500)
   \<and> include_null (Some 1000) None None
   \<and> \<not> include_null None None None"
  using include_null_iff[of "Some 1000" "Some 500" "Some 2000"]
    include_null_iff[of "Some 1000" "Some 1000" "Some 2000"]
    include_null_iff[of "Some 1000" "Some 0" "Some 500"]
    include_null_iff[of "Some 1000" None None]
    include_null_iff[of None None None]
  by simp

subsection \<open>What one iteration and the loop leave behind\<close>

lemma purge_history_for_room_frame:
  assumes "purge_history_for_room env h item = (h', r)"
  shows "retention_default_max_lifetime h' = retention_default_max_lifetime h"
    and "purges_in_progress_by_room h' \<subseteq> insert (fst item) (purges_in_progress_by_room h)"
    and "\<exists>ts. background h' = background h @ ts \<and>
           (\<forall>t \<in> set ts. task_delete_local_events t \<and> task_room_id t = fst item)"
  using assms
  by (auto simp: purge_history_for_room_def purge_history_begin_def Let_def
      split: if_splits option.splits sum.splits prod.splits)

lemma purge_rooms_loop_frame:
  "purge_rooms_loop env h items = (h', r) \<Longrightarrow>
     retention_default_max_lifetime h' = retention_default_max_lifetime h \<and>
     purges_in_progress_by_room h' \<subseteq> purges_in_progress_by_room h \<union> fst ` set items \<and>
     (\<exists>ts. background h' = background h @ ts \<and> (\<forall>t \<in> set ts. task_delete_local_events t))"
proof (induction items arbitrary: h)
  case Nil
  then show ?case by simp
next
  case (Cons item items)
  obtain h1 r1 where b: "purge_history_for_room env h item = (h1, r1)"
    by (cases "purge_history_for_room env h item")
  note f = purge_history_for_room_frame[OF b]
  show ?case
  proof (cases r1)
    case (Some e)
    with b Cons.prems have "h' = h1" by simp
    with f show ?thesis by auto
  next
    case None
    with b Cons.prems have l: "purge_rooms_loop env h1 items = (h', r)" by simp
    from Cons.IH[OF l] f show ?thesis by auto
  qed
qed

lemma purge_history_for_room_launch:
  assumes "room_id \<notin> purges_in_progress_by_room h"
    and "(case pol of None \<Rightarrow> retention_default_max_lifetime h | Some l \<Rightarrow> Some l) = Some max_lifetime"
    and "find_first_stream_ordering_after_ts env (time_msec env room_id - max_lifetime) = Inr stream_ordering"
    and "get_room_event_after_stream_ordering env room_id stream_ordering = Inr (Some (stream_ord, topo_ord, ev_id))"
  shows "purge_history_for_room env h (room_id, pol) =
           (purge_history_begin
              \<lparr>task_purge_id = random_string env room_id, task_room_id = room_id,
               task_token = ''t'' @ show_int topo_ord @ ''-'' @ show_int stream_ord,
               task_delete_local_events = True\<rparr>
              (h\<lparr>purges_by_id := (purges_by_id h)(random_string env room_id \<mapsto> STATUS_ACTIVE)\<rparr>),
            None)"
  using assms by (simp add: purge_history_for_room_def PurgeStatus_init_def Let_def)

lemma purge_rooms_loop_launch:
  assumes "purge_rooms_loop env h items = (h', None)"
    and "distinct (map fst items)"
    and "(room_id, pol) \<in> set items"
    and "room_id \<notin> purges_in_progress_by_room h"
    and "(case pol of None \<Rightarrow> retention_default_max_lifetime h | Some l \<Rightarrow> Some l) = Some max_lifetime"
    and "find_first_stream_ordering_after_ts env (time_msec env room_id - max_lifetime) = Inr stream_ordering"
    and "get_room_event_after_stream_ordering env room_id stream_ordering = Inr (Some (stream_ord, topo_ord, ev_id))"
  shows "\<lparr>task_purge_id = random_string env room_id, task_room_id = room_id,
          task_token = ''t'' @ show_int topo_ord @ ''-'' @ show_int stream_ord,
          task_delete_local_events = True\<rparr> \<in> set (background h')"
  using assms
proof (induction items arbitrary: h)
  case Nil
  then show ?case by simp
next
  case (Cons item items)
  obtain h1 r1 where b: "purge_history_for_room env h item = (h1, r1)"
    by (cases "purge_history_for_room env h item")
  with Cons.prems(1) have r1: "r1 = None" and l: "purge_rooms_loop env h1 items = (h', None)"
    by (auto split: option.splits)
  note f = purge_history_for_room_frame[OF b]
  show ?case
  proof (cases "item = (room_id, pol)")
    case True
    with b purge_history_for_room_launch[OF Cons.prems(4-7)]
    have "h1 = purge_history_begin
              \<lparr>task_purge_id = random_string env room_id, task_room_id = room_id,
               task_token = ''t'' @ show_int topo_ord @ ''-'' @ show_int stream_ord,
               task_delete_local_events = True\<rparr>
              (h\<lparr>purges_by_id := (purges_by_id h)(random_string env room_id \<mapsto> STATUS_ACTIVE)\<rparr>)"
      by simp
    then have "\<lparr>task_purge_id = random_string env room_id, task_room_id = room_id,
               task_token = ''t'' @ show_int topo_ord @ ''-'' @ show_int stream_ord,
               task_delete_local_events = True\<rparr> \<in> set (background h1)"
      by (simp add: purge_history_begin_def)
    with purge_rooms_loop_frame[OF l] show ?thesis by auto
  next
    case False
    with Cons.prems(3) have m: "(room_id, pol) \<in> set items" by auto
    then have "room_id \<in> fst ` set items" by force
    with Cons.prems(2) have "fst item \<noteq> room_id" by auto
    with f(2) Cons.prems(4) have n: "room_id \<notin> purges_in_progress_by_room h1" by auto
    from Cons.prems(2) have d: "distinct (map fst items)" by simp
    from Cons.prems(5) f(1)
    have e: "(case pol of None \<Rightarrow> retention_default_max_lifetime h1 | Some l \<Rightarrow> Some l) = Some max_lifetime"
      by (cases pol) simp_all
    from Cons.IH[OF l d m n e Cons.prems(6) Cons.prems(7)] show ?thesis .
  qed
qed

subsection \<open>The purge a run of the job launches for a room\<close>

text \<open>A storage and a clock to run the job on: two rooms, the second with no policy.\<close>

definition example_retention_env :: retention_env where
  "example_retention_env =
     \<lparr>get_rooms_for_retention_period_in_range =
        (\<lambda>min_ms max_ms inc. Inr ((''!a'', Some 1000) # (if inc then [(''!b'', None)] else []))),
      find_first_stream_ordering_after_ts = (\<lambda>ts. Inr (ts div 10)),
      get_room_event_after_stream_ordering = (\<lambda>room_id s. Inr (Some (s + 1, 3, ''$e''))),
      time_msec = (\<lambda>room_id. 5000),
      random_string = (\<lambda>room_id. ''id'' @ room_id)\<rparr>"

text \<open>
  C1, as the code has it. Take a run of the job that ends without an error, over the
  rooms the storage returned (a dict: no room twice). For a room of the result that is
  not being purged when the run starts, let \<open>max_lifetime\<close> be the lifetime of its policy,
  or the configured default when the policy has none, \<open>stream_ordering\<close> the storage's
  first stream position after the cutoff \<open>now - max_lifetime\<close>, and
  \<open>(stream_ord, topo_ord, ev_id)\<close> the storage's reply for the first event of the room at or
  after that position. Then the run has launched \<^verbatim>\<open>_purge_history\<close> for the room with
  the token \<^verbatim>\<open>t\<close>\<open>topo_ord\<close>\<^verbatim>\<open>-\<close>\<open>stream_ord\<close> and with local events deleted. The code reads the
  first component of the reply as the stream ordering and the second as the topological
  ordering.
\<close>

theorem retention_purge_token:
  assumes "get_rooms_for_retention_period_in_range env min_ms max_ms
             (include_null (retention_default_max_lifetime h) min_ms max_ms) = Inr rooms"
    and "distinct (map fst rooms)"
    and "snd (purge_history_for_rooms_in_range env h min_ms max_ms) = None"
    and "(room_id, pol) \<in> set rooms"
    and "room_id \<notin> purges_in_progress_by_room h"
    and "(case pol of None \<Rightarrow> retention_default_max_lifetime h | Some l \<Rightarrow> Some l) = Some max_lifetime"
    and "find_first_stream_ordering_after_ts env (time_msec env room_id - max_lifetime) = Inr stream_ordering"
    and "get_room_event_after_stream_ordering env room_id stream_ordering = Inr (Some (stream_ord, topo_ord, ev_id))"
  shows "\<lparr>task_purge_id = random_string env room_id, task_room_id = room_id,
          task_token = ''t'' @ show_int topo_ord @ ''-'' @ show_int stream_ord,
          task_delete_local_events = True\<rparr>
         \<in> set (background (fst (purge_history_for_rooms_in_range env h min_ms max_ms)))"
proof -
  obtain h' where l: "purge_rooms_loop env h rooms = (h', None)"
    using assms(1,3)
    by (cases "purge_rooms_loop env h rooms") (simp add: purge_history_for_rooms_in_range_def)
  have "fst (purge_history_for_rooms_in_range env h min_ms max_ms) = h'"
    using assms(1) l by (simp add: purge_history_for_rooms_in_range_def)
  with purge_rooms_loop_launch[OF l assms(2) assms(4-8)] show ?thesis by simp
qed

theorem retention_purge_token_witness:
  "\<lparr>task_purge_id = ''id!b'', task_room_id = ''!b'', task_token = ''t3-301'',
    task_delete_local_events = True\<rparr>
   \<in> set (background (fst (purge_history_for_rooms_in_range example_retention_env
             (new_handler (Some 2000) ''hs'') None (Some 3000))))"
  using retention_purge_token[of example_retention_env None "Some 3000"
      "new_handler (Some 2000) ''hs''" "[(''!a'', Some 1000), (''!b'', None)]"
      "''!b''" None 2000 300 301 3 "''$e''"]
  by (simp add: example_retention_env_def new_handler_def include_null_def
      purge_history_for_rooms_in_range_def purge_history_for_room_def purge_history_begin_def
      PurgeStatus_init_def show_int_def digit_def Let_def)

text \<open>
  C1 as stated reads the storage's reply as (topological, stream, event id). On a reply
  whose first component is 401 and whose second is 3 the token would then be
  \<^verbatim>\<open>t401-3\<close>; the job launches the purge with \<^verbatim>\<open>t3-401\<close>.
\<close>

theorem retention_token_order_counterexample:
  "get_room_event_after_stream_ordering example_retention_env ''!a'' 400 = Inr (Some (401, 3, ''$e''))
   \<and> map task_token (background (fst (purge_history_for_rooms_in_range example_retention_env
         (new_handler None ''hs'') None None))) = [''t3-401'']
   \<and> ''t3-401'' \<noteq> ''t'' @ show_int 401 @ ''-'' @ show_int 3"
  by (simp add: example_retention_env_def new_handler_def include_null_def
      purge_history_for_rooms_in_range_def purge_history_for_room_def purge_history_begin_def
      PurgeStatus_init_def show_int_def digit_def Let_def)


section \<open>Starting a purge\<close>

text \<open>
  C4. \<^verbatim>\<open>start_purge_history\<close> raises the error 400 exactly when the room is in
  \<open>purges_in_progress_by_room\<close>, and then leaves the handler as it was: no entry in the
  table, the set unchanged, no \<^verbatim>\<open>_purge_history\<close> started. Otherwise it returns the purge
  id that \<^verbatim>\<open>random_string\<close> gave it, with an active entry under that id in the table,
  and the room enters the set.
\<close>

theorem start_purge_history_conflict:
  "((\<exists>e. snd (start_purge_history h room_id token dle purge_id) = Inl e)
      = (room_id \<in> purges_in_progress_by_room h))
   \<and> (room_id \<in> purges_in_progress_by_room h \<longrightarrow>
        start_purge_history h room_id token dle purge_id =
          (h, Inl (SynapseError 400 (''History purge already in progress for '' @ room_id))))
   \<and> (room_id \<notin> purges_in_progress_by_room h \<longrightarrow>
        snd (start_purge_history h room_id token dle purge_id) = Inr purge_id
        \<and> get_purge_status (fst (start_purge_history h room_id token dle purge_id)) purge_id
            = Some STATUS_ACTIVE
        \<and> purges_by_id (fst (start_purge_history h room_id token dle purge_id))
            = (purges_by_id h)(purge_id \<mapsto> STATUS_ACTIVE)
        \<and> purges_in_progress_by_room (fst (start_purge_history h room_id token dle purge_id))
            = insert room_id (purges_in_progress_by_room h))"
  by (simp add: start_purge_history_def purge_history_begin_def PurgeStatus_init_def
      get_purge_status_def)

theorem start_purge_history_conflict_witness:
  "start_purge_history (new_handler None ''hs'') ''!r'' ''t1-2'' None ''p1''
     = (purge_history_begin
          \<lparr>task_purge_id = ''p1'', task_room_id = ''!r'', task_token = ''t1-2'',
           task_delete_local_events = False\<rparr>
          ((new_handler None ''hs'')\<lparr>purges_by_id := [''p1'' \<mapsto> STATUS_ACTIVE]\<rparr>), Inr ''p1'')
   \<and> start_purge_history
        (fst (start_purge_history (new_handler None ''hs'') ''!r'' ''t1-2'' None ''p1''))
        ''!r'' ''t5-6'' None ''p2''
     = (fst (start_purge_history (new_handler None ''hs'') ''!r'' ''t1-2'' None ''p1''),
        Inl (SynapseError 400 ''History purge already in progress for !r''))"
  using start_purge_history_conflict[of "new_handler None ''hs''" "''!r''" "''t1-2''" None "''p1''"]
    start_purge_history_conflict[of
      "fst (start_purge_history (new_handler None ''hs'') ''!r'' ''t1-2'' None ''p1'')"
      "''!r''" "''t5-6''" None "''p2''"]
  by (simp add: start_purge_history_def purge_history_begin_def PurgeStatus_init_def
      new_handler_def)

text \<open>
  C9. Every \<^verbatim>\<open>_purge_history\<close> a run of the retention job starts has
  \<open>delete_local_events\<close> true. The one \<^verbatim>\<open>start_purge_history\<close> starts has it true only
  when the caller passed true; left out, the argument is false. \<^verbatim>\<open>_purge_history\<close> hands
  the flag of its call to the storage purge.
\<close>

theorem delete_local_events_flag:
  "(\<exists>ts. background (fst (purge_history_for_rooms_in_range env h min_ms max_ms)) = background h @ ts
         \<and> (\<forall>t \<in> set ts. task_delete_local_events t = True))
   \<and> (room_id \<notin> purges_in_progress_by_room h \<longrightarrow>
        background (fst (start_purge_history h room_id token dle purge_id)) =
          background h @ [\<lparr>task_purge_id = purge_id, task_room_id = room_id, task_token = token,
                           task_delete_local_events = (dle = Some True)\<rparr>])
   \<and> (room_id \<in> purges_in_progress_by_room h \<longrightarrow>
        background (fst (start_purge_history h room_id token dle purge_id)) = background h)
   \<and> storage_log (fst (purge_history_end task oc h)) =
        storage_log h @
          [PurgeHistoryCall (task_room_id task) (task_token task) (task_delete_local_events task)]"
proof -
  have a: "\<exists>ts. background (fst (purge_history_for_rooms_in_range env h min_ms max_ms)) = background h @ ts
         \<and> (\<forall>t \<in> set ts. task_delete_local_events t = True)"
  proof (cases "get_rooms_for_retention_period_in_range env min_ms max_ms
             (include_null (retention_default_max_lifetime h) min_ms max_ms)")
    case (Inl e)
    then show ?thesis by (simp add: purge_history_for_rooms_in_range_def)
  next
    case (Inr rooms)
    obtain h' r where l: "purge_rooms_loop env h rooms = (h', r)"
      by (cases "purge_rooms_loop env h rooms")
    with Inr have "fst (purge_history_for_rooms_in_range env h min_ms max_ms) = h'"
      by (simp add: purge_history_for_rooms_in_range_def)
    with purge_rooms_loop_frame[OF l] show ?thesis by auto
  qed
  have b: "room_id \<notin> purges_in_progress_by_room h \<longrightarrow>
        background (fst (start_purge_history h room_id token dle purge_id)) =
          background h @ [\<lparr>task_purge_id = purge_id, task_room_id = room_id, task_token = token,
                           task_delete_local_events = (dle = Some True)\<rparr>]"
    by (cases dle) (auto simp: start_purge_history_def purge_history_begin_def)
  have c: "room_id \<in> purges_in_progress_by_room h \<longrightarrow>
        background (fst (start_purge_history h room_id token dle purge_id)) = background h"
    by (simp add: start_purge_history_def)
  have d: "storage_log (fst (purge_history_end task oc h)) =
        storage_log h @
          [PurgeHistoryCall (task_room_id task) (task_token task) (task_delete_local_events task)]"
    by (simp add: purge_history_end_def set_status_def Let_def
        split: outcome.splits sum.splits option.splits prod.splits)
  from a b c d show ?thesis by blast
qed

theorem delete_local_events_flag_witness:
  "map task_delete_local_events
     (background (fst (purge_history_for_rooms_in_range example_retention_env
        (new_handler (Some 2000) ''hs'') None None))) = [True, True]
   \<and> map task_delete_local_events
       (background (fst (start_purge_history (new_handler None ''hs'') ''!r'' ''t1-2'' None ''p''))) = [False]
   \<and> map task_delete_local_events
       (background (fst (start_purge_history (new_handler None ''hs'') ''!r'' ''t1-2'' (Some False) ''p''))) = [False]
   \<and> map task_delete_local_events
       (background (fst (start_purge_history (new_handler None ''hs'') ''!r'' ''t1-2'' (Some True) ''p''))) = [True]"
  using delete_local_events_flag[of example_retention_env "new_handler (Some 2000) ''hs''" None None
      "''!r''" "''t1-2''" None "''p''"]
    delete_local_events_flag[of example_retention_env "new_handler None ''hs''" None None
      "''!r''" "''t1-2''" None "''p''"]
    delete_local_events_flag[of example_retention_env "new_handler None ''hs''" None None
      "''!r''" "''t1-2''" "Some False" "''p''"]
    delete_local_events_flag[of example_retention_env "new_handler None ''hs''" None None
      "''!r''" "''t1-2''" "Some True" "''p''"]
  by (simp add: example_retention_env_def new_handler_def include_null_def
      purge_history_for_rooms_in_range_def purge_history_for_room_def purge_history_begin_def
      start_purge_history_def PurgeStatus_init_def show_int_def digit_def Let_def)

section \<open>Purging a whole room\<close>

text \<open>A storage that does not know \<^verbatim>\<open>!gone\<close> and has a local user joined to \<^verbatim>\<open>!busy\<close>.\<close>

definition example_purge_room_env :: purge_room_env where
  "example_purge_room_env =
     \<lparr>get_room_version =
        (\<lambda>room_id. if room_id = ''!gone'' then Inl (CollaboratorError ''NotFoundError'') else Inr ''5''),
      is_host_joined = (\<lambda>room_id host. Inr (room_id = ''!busy'')),
      storage_purge_room = (\<lambda>room_id. Inr ())\<rparr>"


text \<open>
  C5. \<^verbatim>\<open>purge_room\<close> fails with the storage's error when the room is unknown and with
  the error 400 "Users are still joined to this room" when the room is known and the
  server is joined to it; in both cases the storage's \<^verbatim>\<open>purge_room\<close> is not called. It
  is called only for a known room the server is not joined to, and then the call
  succeeds exactly when the storage's \<^verbatim>\<open>purge_room\<close> does.
\<close>

theorem purge_room_preconditions:
  "(get_room_version env room_id = Inl e \<longrightarrow> purge_room env h room_id = (h, Inl e))
   \<and> (get_room_version env room_id = Inr v \<and> is_host_joined env room_id (server_name h) = Inr True \<longrightarrow>
        purge_room env h room_id = (h, Inl (SynapseError 400 ''Users are still joined to this room'')))
   \<and> (get_room_version env room_id = Inr v \<and> is_host_joined env room_id (server_name h) = Inr False \<longrightarrow>
        purge_room env h room_id =
          (h\<lparr>storage_log := storage_log h @ [PurgeRoomCall room_id]\<rparr>, storage_purge_room env room_id))
   \<and> (storage_log (fst (purge_room env h room_id)) \<noteq> storage_log h \<longrightarrow>
        (\<exists>v. get_room_version env room_id = Inr v) \<and>
        is_host_joined env room_id (server_name h) = Inr False)
   \<and> ((\<exists>u. snd (purge_room env h room_id) = Inr u) =
        ((\<exists>v. get_room_version env room_id = Inr v) \<and>
         is_host_joined env room_id (server_name h) = Inr False \<and>
         (\<exists>u. storage_purge_room env room_id = Inr u)))"
  by (auto simp: purge_room_def split: sum.splits)

theorem purge_room_preconditions_witness:
  "purge_room example_purge_room_env (new_handler None ''hs'') ''!gone''
     = (new_handler None ''hs'', Inl (CollaboratorError ''NotFoundError''))
   \<and> purge_room example_purge_room_env (new_handler None ''hs'') ''!busy''
     = (new_handler None ''hs'', Inl (SynapseError 400 ''Users are still joined to this room''))
   \<and> purge_room example_purge_room_env (new_handler None ''hs'') ''!empty''
     = ((new_handler None ''hs'')\<lparr>storage_log := [PurgeRoomCall ''!empty'']\<rparr>, Inr ())"
  using purge_room_preconditions[of example_purge_room_env "''!gone''" "CollaboratorError ''NotFoundError''"
      "new_handler None ''hs''" "''5''"]
    purge_room_preconditions[of example_purge_room_env "''!busy''" "CollaboratorError ''NotFoundError''"
      "new_handler None ''hs''" "''5''"]
    purge_room_preconditions[of example_purge_room_env "''!empty''" "CollaboratorError ''NotFoundError''"
      "new_handler None ''hs''" "''5''"]
  by (simp add: example_purge_room_env_def new_handler_def)


section \<open>Reading a page of messages\<close>

text \<open>
  Collaborators to run \<^verbatim>\<open>get_messages\<close> on: a requester who left the room at
  \<^verbatim>\<open>t5-100\<close>, one who is joined, a room with no events, and a visibility filter that
  hides the event \<^verbatim>\<open>$late\<close> from the requester who left.
\<close>

definition example_event :: "string \<Rightarrow> event" where
  "example_event eid = \<lparr>event_id = eid, sender = ''@other:hs'', content = ''hello''\<rparr>"

definition example_collaborators :: collaborators where
  "example_collaborators =
     \<lparr>get_current_token_for_pagination = Inr \<lparr>room_key = ''s300'', other_keys = [''0'']\<rparr>,
      parse = (\<lambda>s. if s = ''t7-200'' then Inr \<lparr>topological = Some 7, stream = 200\<rparr>
                   else if s = ''t5-200'' then Inr \<lparr>topological = Some 5, stream = 200\<rparr>
                   else if s = ''t5-100'' then Inr \<lparr>topological = Some 5, stream = 100\<rparr>
                   else if s = ''t3-40'' then Inr \<lparr>topological = Some 3, stream = 40\<rparr>
                   else if s = ''s300'' then Inr \<lparr>topological = None, stream = 300\<rparr>
                   else Inl (SynapseError 400 ''Invalid token'')),
      str_room_token = (\<lambda>t. case topological t of
                                None \<Rightarrow> ''s'' @ show_int (stream t)
                              | Some d \<Rightarrow> ''t'' @ show_int d @ ''-'' @ show_int (stream t)),
      to_string = room_key,
      get_source_config = (\<lambda>pc name.
         \<lparr>from_key = (case from_token pc of None \<Rightarrow> [] | Some t \<Rightarrow> room_key t),
          to_key = None, source_direction = direction pc, source_limit = limit pc\<rparr>),
      check_in_room_or_world_readable = (\<lambda>room_id user_id.
         if user_id = ''@left:hs'' then Inr (''leave'', Some ''$leave'')
         else if user_id = ''@in:hs'' then Inr (''join'', Some ''$join'')
         else Inl (SynapseError 403 ''Forbidden'')),
      get_max_topological_token = (\<lambda>room_id s. Inr 9),
      get_topological_token_for_event = (\<lambda>eid.
         if eid = Some ''$leave'' then Inr ''t5-100'' else Inl (CollaboratorError ''unknown event'')),
      maybe_backfill = (\<lambda>room_id max_topo. Inr ()),
      paginate_room_events = (\<lambda>room_id fk tk dir lim f.
         if room_id = ''!new'' then Inr ([], fk)
         else if fk = ''t5-100'' then Inr ([example_event ''$leave'', example_event ''$old''], ''t3-39'')
         else Inr ([example_event ''$late''], ''t5-149'')),
      filter_events_for_client = (\<lambda>user_id evs peek.
         Inr (if user_id = ''@left:hs'' then filter (\<lambda>e. event_id e \<noteq> ''$late'') evs else evs)),
      get_state_ids_for_event = (\<lambda>eid types. Inr []),
      get_events = (\<lambda>ids. Inr []),
      serialize_events = (\<lambda>evs time_now as_client. Inr (map event_id evs)),
      clock_time_msec = 5000\<rparr>"

definition example_config :: "stream_token option \<Rightarrow> pagination_config" where
  "example_config token = \<lparr>from_token = token, to_token = None, direction = ''b'', limit = 10\<rparr>"

lemmas example_defs = example_collaborators_def example_config_def example_event_def
  get_messages_def resolve_room_token_def copy_and_replace_room_key_def read_page_def
  backward_branch_def resolve_max_topo_def clamp_to_leave_def filter_page_def build_response_def
  load_state_def show_int_def digit_def Let_def

lemma resolve_room_token_result:
  assumes "(case from_token pc of Some t \<Rightarrow> Inr t | None \<Rightarrow> get_current_token_for_pagination col) = Inr orig"
    and "parse col (room_key orig) = Inr rt"
  shows "resolve_room_token col pc =
           (pc\<lparr>from_token := Some (orig\<lparr>room_key := str_room_token col rt\<rparr>)\<rparr>,
            Inr (rt, orig\<lparr>room_key := str_room_token col rt\<rparr>))"
  using assms
  by (auto simp: resolve_room_token_def copy_and_replace_room_key_def Let_def split: option.splits)

lemma read_page_leave_backward:
  assumes "check_in_room_or_world_readable col room_id user_id = Inr (''leave'', member_event_id)"
    and "source_direction sc = ''b''"
    and "resolve_max_topo col room_id room_token = Inr max_topo"
    and "get_topological_token_for_event col member_event_id = Inr leave"
    and "parse col leave = Inr leave_token"
    and "topological leave_token = Some leave_topo"
  shows "fst (read_page col user_id room_id room_token evfilter sc) =
           (if leave_topo < max_topo then sc\<lparr>from_key := str_room_token col leave_token\<rparr> else sc)"
  using assms
  by (auto simp: read_page_def backward_branch_def clamp_to_leave_def split: sum.splits prod.splits)

lemma filter_page_Nil: "filter_page col user_id evfilter member_event_id [] = Inr []"
  by (simp add: filter_page_def)

lemma clamp_to_leave_source_config:
  "fst (clamp_to_leave col member_event_id max_topo sc) = sc \<or>
   (\<exists>leave leave_token.
       get_topological_token_for_event col member_event_id = Inr leave \<and>
       parse col leave = Inr leave_token \<and>
       fst (clamp_to_leave col member_event_id max_topo sc) =
         sc\<lparr>from_key := str_room_token col leave_token\<rparr>)"
  by (simp add: clamp_to_leave_def split: sum.splits option.splits)

lemma backward_branch_source_config:
  "fst (backward_branch col room_id room_token membership member_event_id sc) =
     (if membership = ''leave'' \<and> (\<exists>m. resolve_max_topo col room_id room_token = Inr m)
      then fst (clamp_to_leave col member_event_id
                  (case resolve_max_topo col room_id room_token of Inr m \<Rightarrow> m | Inl _ \<Rightarrow> 0) sc)
      else sc)"
  by (simp add: backward_branch_def split: sum.splits prod.splits)

lemma read_page_fst:
  "fst (read_page col user_id room_id room_token evfilter sc) =
     (case check_in_room_or_world_readable col room_id user_id of
        Inl e \<Rightarrow> sc
      | Inr (membership, member_event_id) \<Rightarrow>
          if source_direction sc = ''b''
          then fst (backward_branch col room_id room_token membership member_event_id sc)
          else sc)"
  by (simp add: read_page_def split: sum.splits prod.splits)

lemma read_page_source_config:
  "fst (read_page col user_id room_id room_token evfilter sc) = sc \<or>
   (source_direction sc = ''b'' \<and>
    (\<exists>member_event_id leave leave_token.
       check_in_room_or_world_readable col room_id user_id = Inr (''leave'', member_event_id) \<and>
       get_topological_token_for_event col member_event_id = Inr leave \<and>
       parse col leave = Inr leave_token \<and>
       fst (read_page col user_id room_id room_token evfilter sc) =
         sc\<lparr>from_key := str_room_token col leave_token\<rparr>))"
proof (cases "check_in_room_or_world_readable col room_id user_id")
  case (Inl e)
  then show ?thesis by (simp add: read_page_fst)
next
  case (Inr p)
  obtain membership member_event_id where p: "p = (membership, member_event_id)" by (cases p)
  show ?thesis
  proof (cases "source_direction sc = ''b'' \<and> membership = ''leave''
      \<and> (\<exists>m. resolve_max_topo col room_id room_token = Inr m)")
    case True
    then obtain m where m: "resolve_max_topo col room_id room_token = Inr m" by blast
    from True Inr p m
    have "fst (read_page col user_id room_id room_token evfilter sc) =
            fst (clamp_to_leave col member_event_id m sc)"
      by (simp add: read_page_fst backward_branch_source_config)
    with clamp_to_leave_source_config[of col member_event_id m sc] True Inr p
    show ?thesis by auto
  next
    case False
    with Inr p have "fst (read_page col user_id room_id room_token evfilter sc) = sc"
      by (auto simp: read_page_fst backward_branch_source_config)
    then show ?thesis by simp
  qed
qed

lemma get_messages_pagin_config:
  "pagin_config_after (fst (get_messages col requester room_id pc ace evfilter)) =
     fst (resolve_room_token col pc)"
  by (simp add: get_messages_def split: prod.splits sum.splits)

lemma resolve_room_token_frame:
  "to_token (fst (resolve_room_token col pc)) = to_token pc
   \<and> direction (fst (resolve_room_token col pc)) = direction pc
   \<and> limit (fst (resolve_room_token col pc)) = limit pc"
  by (simp add: resolve_room_token_def Let_def split: sum.splits option.splits)

text \<open>
  C6, as the code has it. For a requester who has left the room and pages backward,
  the \<open>from_key\<close> of the source config is replaced by the leave event's token exactly
  when the topological part of that token is below the resolved maximum topological
  position; otherwise it stays as it was. The storage is then asked for the page from
  that key. The comparison is on the topological parts alone.
\<close>

theorem get_messages_leave_clamp:
  assumes "resolve_room_token col pc = (pc', Inr (room_token, token))"
    and "get_source_config col pc' ''room'' = sc"
    and "source_direction sc = ''b''"
    and "check_in_room_or_world_readable col room_id requester = Inr (''leave'', member_event_id)"
    and "resolve_max_topo col room_id room_token = Inr max_topo"
    and "get_topological_token_for_event col member_event_id = Inr leave"
    and "parse col leave = Inr leave_token"
    and "topological leave_token = Some leave_topo"
  shows "source_config_after (fst (get_messages col requester room_id pc as_client_event evfilter)) =
           Some (if leave_topo < max_topo then sc\<lparr>from_key := str_room_token col leave_token\<rparr> else sc)
         \<and> (maybe_backfill col room_id max_topo = Inr () \<longrightarrow>
              snd (read_page col requester room_id room_token evfilter sc) =
                (case paginate_room_events col room_id
                        (if leave_topo < max_topo then str_room_token col leave_token else from_key sc)
                        (to_key sc) ''b'' (source_limit sc) evfilter of
                   Inl e \<Rightarrow> Inl e
                 | Inr (events, next_key) \<Rightarrow> Inr (member_event_id, events, next_key)))"
proof -
  have a: "fst (read_page col requester room_id room_token evfilter sc) =
           (if leave_topo < max_topo then sc\<lparr>from_key := str_room_token col leave_token\<rparr> else sc)"
    using read_page_leave_backward[OF assms(4) assms(3) assms(5-8)] .
  have "source_config_after (fst (get_messages col requester room_id pc as_client_event evfilter)) =
          Some (fst (read_page col requester room_id room_token evfilter sc))"
    using assms(1,2) by (simp add: get_messages_def split: prod.splits sum.splits)
  with a have b: "source_config_after (fst (get_messages col requester room_id pc as_client_event evfilter)) =
           Some (if leave_topo < max_topo then sc\<lparr>from_key := str_room_token col leave_token\<rparr> else sc)"
    by simp
  have c: "maybe_backfill col room_id max_topo = Inr () \<longrightarrow>
              snd (read_page col requester room_id room_token evfilter sc) =
                (case paginate_room_events col room_id
                        (if leave_topo < max_topo then str_room_token col leave_token else from_key sc)
                        (to_key sc) ''b'' (source_limit sc) evfilter of
                   Inl e \<Rightarrow> Inl e
                 | Inr (events, next_key) \<Rightarrow> Inr (member_event_id, events, next_key))"
    using assms(3-8)
    by (auto simp: read_page_def backward_branch_def clamp_to_leave_def split: sum.splits prod.splits)
  from b c show ?thesis by blast
qed

theorem get_messages_leave_clamp_witness:
  "source_config_after (fst (get_messages example_collaborators ''@left:hs'' ''!room''
       (example_config (Some \<lparr>room_key = ''t7-200'', other_keys = []\<rparr>)) True None)) =
     Some \<lparr>from_key = ''t5-100'', to_key = None, source_direction = ''b'', source_limit = 10\<rparr>
   \<and> snd (read_page example_collaborators ''@left:hs'' ''!room'' \<lparr>topological = Some 7, stream = 200\<rparr> None
        \<lparr>from_key = ''t7-200'', to_key = None, source_direction = ''b'', source_limit = 10\<rparr>) =
     Inr (Some ''$leave'', [example_event ''$leave'', example_event ''$old''], ''t3-39'')"
  using get_messages_leave_clamp[of example_collaborators
      "example_config (Some \<lparr>room_key = ''t7-200'', other_keys = []\<rparr>)"
      "example_config (Some \<lparr>room_key = ''t7-200'', other_keys = []\<rparr>)"
      "\<lparr>topological = Some 7, stream = 200\<rparr>" "\<lparr>room_key = ''t7-200'', other_keys = []\<rparr>"
      "\<lparr>from_key = ''t7-200'', to_key = None, source_direction = ''b'', source_limit = 10\<rparr>"
      "''!room''" "''@left:hs''" "Some ''$leave''" 7 "''t5-100''" "\<lparr>topological = Some 5, stream = 100\<rparr>" 5
      True None]
  by (simp add: example_defs)

text \<open>
  C6 as stated adds that in all cases nothing past the departure is loaded. A requester
  who left at \<^verbatim>\<open>t5-100\<close> and pages backward from \<^verbatim>\<open>t5-200\<close>: the topological parts are
  equal, the key stays \<^verbatim>\<open>t5-200\<close>, a position after the leave event, and the page the
  storage returns for it is loaded.
\<close>

theorem leave_clamp_counterexample:
  "parse example_collaborators ''t5-100'' = Inr \<lparr>topological = Some 5, stream = 100\<rparr>
   \<and> parse example_collaborators ''t5-200'' = Inr \<lparr>topological = Some 5, stream = 200\<rparr>
   \<and> check_in_room_or_world_readable example_collaborators ''!room'' ''@left:hs'' = Inr (''leave'', Some ''$leave'')
   \<and> get_topological_token_for_event example_collaborators (Some ''$leave'') = Inr ''t5-100''
   \<and> source_config_after (fst (get_messages example_collaborators ''@left:hs'' ''!room''
       (example_config (Some \<lparr>room_key = ''t5-200'', other_keys = []\<rparr>)) True None)) =
     Some \<lparr>from_key = ''t5-200'', to_key = None, source_direction = ''b'', source_limit = 10\<rparr>
   \<and> snd (read_page example_collaborators ''@left:hs'' ''!room'' \<lparr>topological = Some 5, stream = 200\<rparr> None
        \<lparr>from_key = ''t5-200'', to_key = None, source_direction = ''b'', source_limit = 10\<rparr>) =
     Inr (Some ''$leave'', [example_event ''$late''], ''t5-149'')"
  by (simp add: example_defs)

text \<open>
  C7. When the lines up to the read of the page have not raised and no event is left,
  because the page was empty or because the filters returned none, \<^verbatim>\<open>get_messages\<close>
  returns an empty chunk, with \<open>start\<close> the from token with its room key parsed and
  printed again (the caller's, or the current one when the caller gave none) and \<open>end\<close>
  that token with the storage's next key as room key.
\<close>

theorem get_messages_empty_page:
  assumes "resolve_room_token col pc = (pc', Inr (room_token, token))"
    and "read_page col requester room_id room_token evfilter (get_source_config col pc' ''room'') =
           (sc, Inr (member_event_id, events, next_key))"
    and "events = [] \<or>
         filter_events_for_client col requester
           (case evfilter of None \<Rightarrow> events | Some f \<Rightarrow> filter_events f events)
           (member_event_id = None) = Inr []"
  shows "snd (get_messages col requester room_id pc as_client_event evfilter) =
           Inr \<lparr>chunk = [], start = to_string col token,
                end_token = to_string col (copy_and_replace_room_key token next_key), state = None\<rparr>
         \<and> from_token pc' = Some token
         \<and> (\<exists>orig rt. (case from_token pc of Some t \<Rightarrow> Inr t
                        | None \<Rightarrow> get_current_token_for_pagination col) = Inr orig
              \<and> parse col (room_key orig) = Inr rt
              \<and> token = copy_and_replace_room_key orig (str_room_token col rt))"
proof -
  have f: "filter_page col requester evfilter member_event_id events = Inr []"
    using assms(3) by (auto simp: filter_page_def)
  have a: "snd (get_messages col requester room_id pc as_client_event evfilter) =
           Inr \<lparr>chunk = [], start = to_string col token,
                end_token = to_string col (copy_and_replace_room_key token next_key), state = None\<rparr>"
    using assms(1,2) f by (simp add: get_messages_def build_response_def)
  have b: "from_token pc' = Some token
         \<and> (\<exists>orig rt. (case from_token pc of Some t \<Rightarrow> Inr t
                        | None \<Rightarrow> get_current_token_for_pagination col) = Inr orig
              \<and> parse col (room_key orig) = Inr rt
              \<and> token = copy_and_replace_room_key orig (str_room_token col rt))"
    using assms(1)
    by (auto simp: resolve_room_token_def Let_def split: option.splits sum.splits)
  from a b show ?thesis by blast
qed

theorem get_messages_empty_page_witness:
  "get_messages example_collaborators ''@in:hs'' ''!new'' (example_config None) True None =
     (\<lparr>pagin_config_after = example_config (Some \<lparr>room_key = ''s300'', other_keys = [''0'']\<rparr>),
       source_config_after =
         Some \<lparr>from_key = ''s300'', to_key = None, source_direction = ''b'', source_limit = 10\<rparr>\<rparr>,
      Inr \<lparr>chunk = [], start = ''s300'', end_token = ''s300'', state = None\<rparr>)
   \<and> snd (get_messages example_collaborators ''@left:hs'' ''!room''
        (example_config (Some \<lparr>room_key = ''t5-200'', other_keys = []\<rparr>)) True None) =
      Inr \<lparr>chunk = [], start = ''t5-200'', end_token = ''t5-149'', state = None\<rparr>"
  using get_messages_empty_page[of example_collaborators "example_config None"
      "example_config (Some \<lparr>room_key = ''s300'', other_keys = [''0'']\<rparr>)"
      "\<lparr>topological = None, stream = 300\<rparr>" "\<lparr>room_key = ''s300'', other_keys = [''0'']\<rparr>"
      "''@in:hs''" "''!new''" None
      "\<lparr>from_key = ''s300'', to_key = None, source_direction = ''b'', source_limit = 10\<rparr>"
      "Some ''$join''" "[]" "''s300''" True]
    get_messages_empty_page[of example_collaborators
      "example_config (Some \<lparr>room_key = ''t5-200'', other_keys = []\<rparr>)"
      "example_config (Some \<lparr>room_key = ''t5-200'', other_keys = []\<rparr>)"
      "\<lparr>topological = Some 5, stream = 200\<rparr>" "\<lparr>room_key = ''t5-200'', other_keys = []\<rparr>"
      "''@left:hs''" "''!room''" None
      "\<lparr>from_key = ''t5-200'', to_key = None, source_direction = ''b'', source_limit = 10\<rparr>"
      "Some ''$leave''" "[example_event ''$late'']" "''t5-149''" True]
  by (simp add: example_defs)

text \<open>
  The same collaborators with a parser that also reads \<^verbatim>\<open>t07-200\<close>, which is printed
  again as \<^verbatim>\<open>t7-200\<close>.
\<close>

definition padded_collaborators :: collaborators where
  "padded_collaborators =
     example_collaborators
       \<lparr>parse := (\<lambda>s. if s = ''t07-200'' then Inr \<lparr>topological = Some 7, stream = 200\<rparr>
                      else parse example_collaborators s)\<rparr>"

lemma resolve_room_token_config:
  "fst (resolve_room_token col pc) =
     (case (case from_token pc of Some t \<Rightarrow> Inr t | None \<Rightarrow> get_current_token_for_pagination col) of
        Inl e \<Rightarrow> pc
      | Inr orig \<Rightarrow>
          (case parse col (room_key orig) of
             Inl e \<Rightarrow> pc\<lparr>from_token := Some orig\<rparr>
           | Inr rt \<Rightarrow> pc\<lparr>from_token := Some (orig\<lparr>room_key := str_room_token col rt\<rparr>)\<rparr>))"
  by (simp add: resolve_room_token_def copy_and_replace_room_key_def Let_def
      split: option.splits sum.splits)

text \<open>
  C10, as the code has it. \<^verbatim>\<open>get_messages\<close> changes the caller's config in place and
  does not restore it, whether it returns or raises. With no from token from the caller
  and none from the event sources the config is as given. With a from token (the
  caller's, or the current one, which is put into the config first) whose room key does
  not parse, the call raises and \<open>from_token\<close> is that token, unchanged. When the room
  key parses, \<open>from_token\<close> is that token with its room key replaced by the parsed key
  printed again. The source config the call then leaves is the one
  \<^verbatim>\<open>get_source_config\<close> returned, or, for a backward read by a requester who has left,
  that one with \<open>from_key\<close> replaced by the leave token.
\<close>

theorem get_messages_mutates_config:
  "pagin_config_after (fst (get_messages col requester room_id pc ace evfilter)) =
     (case (case from_token pc of Some t \<Rightarrow> Inr t | None \<Rightarrow> get_current_token_for_pagination col) of
        Inl e \<Rightarrow> pc
      | Inr orig \<Rightarrow>
          (case parse col (room_key orig) of
             Inl e \<Rightarrow> pc\<lparr>from_token := Some orig\<rparr>
           | Inr rt \<Rightarrow> pc\<lparr>from_token := Some (orig\<lparr>room_key := str_room_token col rt\<rparr>)\<rparr>))
   \<and> ((case from_token pc of Some t \<Rightarrow> Inr t | None \<Rightarrow> get_current_token_for_pagination col) = Inr orig
        \<and> parse col (room_key orig) = Inr rt
        \<and> sc = get_source_config col
                 (pc\<lparr>from_token := Some (orig\<lparr>room_key := str_room_token col rt\<rparr>)\<rparr>) ''room'' \<longrightarrow>
        source_config_after (fst (get_messages col requester room_id pc ace evfilter)) = Some sc
        \<or> (source_direction sc = ''b'' \<and>
            (\<exists>member_event_id leave leave_token.
               check_in_room_or_world_readable col room_id requester = Inr (''leave'', member_event_id) \<and>
               get_topological_token_for_event col member_event_id = Inr leave \<and>
               parse col leave = Inr leave_token \<and>
               source_config_after (fst (get_messages col requester room_id pc ace evfilter)) =
                 Some (sc\<lparr>from_key := str_room_token col leave_token\<rparr>))))"
proof -
  have a: "pagin_config_after (fst (get_messages col requester room_id pc ace evfilter)) =
     (case (case from_token pc of Some t \<Rightarrow> Inr t | None \<Rightarrow> get_current_token_for_pagination col) of
        Inl e \<Rightarrow> pc
      | Inr orig \<Rightarrow>
          (case parse col (room_key orig) of
             Inl e \<Rightarrow> pc\<lparr>from_token := Some orig\<rparr>
           | Inr rt \<Rightarrow> pc\<lparr>from_token := Some (orig\<lparr>room_key := str_room_token col rt\<rparr>)\<rparr>))"
    by (simp only: get_messages_pagin_config resolve_room_token_config)
  have b: "(case from_token pc of Some t \<Rightarrow> Inr t | None \<Rightarrow> get_current_token_for_pagination col) = Inr orig
        \<and> parse col (room_key orig) = Inr rt
        \<and> sc = get_source_config col
                 (pc\<lparr>from_token := Some (orig\<lparr>room_key := str_room_token col rt\<rparr>)\<rparr>) ''room'' \<longrightarrow>
        source_config_after (fst (get_messages col requester room_id pc ace evfilter)) = Some sc
        \<or> (source_direction sc = ''b'' \<and>
            (\<exists>member_event_id leave leave_token.
               check_in_room_or_world_readable col room_id requester = Inr (''leave'', member_event_id) \<and>
               get_topological_token_for_event col member_event_id = Inr leave \<and>
               parse col leave = Inr leave_token \<and>
               source_config_after (fst (get_messages col requester room_id pc ace evfilter)) =
                 Some (sc\<lparr>from_key := str_room_token col leave_token\<rparr>)))"
  proof (intro impI, elim conjE)
    assume t: "(case from_token pc of Some t \<Rightarrow> Inr t | None \<Rightarrow> get_current_token_for_pagination col) = Inr orig"
      and p: "parse col (room_key orig) = Inr rt"
      and s: "sc = get_source_config col
                 (pc\<lparr>from_token := Some (orig\<lparr>room_key := str_room_token col rt\<rparr>)\<rparr>) ''room''"
    have "source_config_after (fst (get_messages col requester room_id pc ace evfilter)) =
             Some (fst (read_page col requester room_id rt evfilter sc))"
      using resolve_room_token_result[OF t p] s
      by (simp add: get_messages_def split: prod.splits sum.splits)
    with read_page_source_config[of col requester room_id rt evfilter sc]
    show "source_config_after (fst (get_messages col requester room_id pc ace evfilter)) = Some sc
        \<or> (source_direction sc = ''b'' \<and>
            (\<exists>member_event_id leave leave_token.
               check_in_room_or_world_readable col room_id requester = Inr (''leave'', member_event_id) \<and>
               get_topological_token_for_event col member_event_id = Inr leave \<and>
               parse col leave = Inr leave_token \<and>
               source_config_after (fst (get_messages col requester room_id pc ace evfilter)) =
                 Some (sc\<lparr>from_key := str_room_token col leave_token\<rparr>)))"
      by auto
  qed
  from a b show ?thesis by blast
qed

theorem get_messages_mutates_config_witness:
  "fst (get_messages padded_collaborators ''@left:hs'' ''!room''
       (example_config (Some \<lparr>room_key = ''t07-200'', other_keys = [''9'']\<rparr>)) True None) =
     \<lparr>pagin_config_after = example_config (Some \<lparr>room_key = ''t7-200'', other_keys = [''9'']\<rparr>),
       source_config_after =
         Some \<lparr>from_key = ''t5-100'', to_key = None, source_direction = ''b'', source_limit = 10\<rparr>\<rparr>
   \<and> get_messages padded_collaborators ''@nobody:hs'' ''!room'' (example_config None) True None =
     (\<lparr>pagin_config_after = example_config (Some \<lparr>room_key = ''s300'', other_keys = [''0'']\<rparr>),
       source_config_after =
         Some \<lparr>from_key = ''s300'', to_key = None, source_direction = ''b'', source_limit = 10\<rparr>\<rparr>,
      Inl (SynapseError 403 ''Forbidden''))"
  using get_messages_mutates_config[where pc = "example_config (Some \<lparr>room_key = ''t07-200'', other_keys = [''9'']\<rparr>)"
      and col = padded_collaborators
      and orig = "\<lparr>room_key = ''t07-200'', other_keys = [''9'']\<rparr>"
      and rt = "\<lparr>topological = Some 7, stream = 200\<rparr>"
      and sc = "\<lparr>from_key = ''t7-200'', to_key = None, source_direction = ''b'', source_limit = 10\<rparr>"
      and requester = "''@left:hs''" and room_id = "''!room''" and ace = True and evfilter = None]
    get_messages_mutates_config[where pc = "example_config None" and col = padded_collaborators
      and orig = "\<lparr>room_key = ''s300'', other_keys = [''0'']\<rparr>"
      and rt = "\<lparr>topological = None, stream = 300\<rparr>"
      and sc = "\<lparr>from_key = ''s300'', to_key = None, source_direction = ''b'', source_limit = 10\<rparr>"
      and requester = "''@nobody:hs''" and room_id = "''!room''" and ace = True and evfilter = None]
  by (simp add: padded_collaborators_def example_defs)

text \<open>
  C10 as stated has \<open>from_token\<close> always overwritten with a token whose room key has
  been parsed and printed again. A caller's token with the room key \<^verbatim>\<open>garbage\<close>: the
  parser raises at line 313, the call ends with that error and the config still holds
  the token as the caller gave it.
\<close>

theorem config_not_overwritten_counterexample:
  "parse example_collaborators ''garbage'' = Inl (SynapseError 400 ''Invalid token'')
   \<and> get_messages example_collaborators ''@in:hs'' ''!room''
       (example_config (Some \<lparr>room_key = ''garbage'', other_keys = []\<rparr>)) True None =
     (\<lparr>pagin_config_after = example_config (Some \<lparr>room_key = ''garbage'', other_keys = []\<rparr>),
       source_config_after = None\<rparr>,
      Inl (SynapseError 400 ''Invalid token''))"
  by (simp add: example_defs)

section \<open>The life of a purge status\<close>

lemma fire_fields:
  "purges_by_id (fire c h) = (purges_by_id h)(snd c := None)"
  "purges_in_progress_by_room (fire c h) = purges_in_progress_by_room h"
  "background (fire c h) = background h"
  "reactor_seconds (fire c h) = reactor_seconds h"
  "delayed_calls (fire c h) = delayed_calls h"
  by (auto simp: fire_def clear_purge_def split: option.splits)

lemma fold_fire_fields:
  "purges_by_id (fold fire cs h) = (\<lambda>p. if p \<in> snd ` set cs then None else purges_by_id h p)"
  "background (fold fire cs h) = background h"
  "reactor_seconds (fold fire cs h) = reactor_seconds h"
  "delayed_calls (fold fire cs h) = delayed_calls h"
  by (induction cs arbitrary: h) (auto simp: fire_fields fun_eq_iff)

lemma reactor_advance_fields:
  "purges_by_id (reactor_advance d h) =
     (\<lambda>p. if p \<in> snd ` {c \<in> set (delayed_calls h). fst c \<le> reactor_seconds h + d} then None
          else purges_by_id h p)"
  "background (reactor_advance d h) = background h"
  "reactor_seconds (reactor_advance d h) = reactor_seconds h + d"
  "delayed_calls (reactor_advance d h) =
     filter (\<lambda>c. \<not> fst c \<le> reactor_seconds h + d) (delayed_calls h)"
  by (auto simp: reactor_advance_def Let_def fold_fire_fields fun_eq_iff)

lemma purge_history_end_fields:
  "purges_by_id (fst (purge_history_end task oc h)) =
     (case purges_by_id h (task_purge_id task) of
        None \<Rightarrow> purges_by_id h
      | Some _ \<Rightarrow> (purges_by_id h)(task_purge_id task \<mapsto> terminal oc))"
  "background (fst (purge_history_end task oc h)) = background h"
  "reactor_seconds (fst (purge_history_end task oc h)) = reactor_seconds h"
  "delayed_calls (fst (purge_history_end task oc h)) =
     delayed_calls h @ [(reactor_seconds h + 24 * 3600, task_purge_id task)]"
  by (auto simp: purge_history_end_def set_status_def terminal_def Let_def
      split: option.splits outcome.splits)

lemma start_purge_history_fields:
  "purges_by_id (fst (start_purge_history h room_id token dle purge_id)) =
     (if room_id \<in> purges_in_progress_by_room h then purges_by_id h
      else (purges_by_id h)(purge_id \<mapsto> STATUS_ACTIVE))"
  "reactor_seconds (fst (start_purge_history h room_id token dle purge_id)) = reactor_seconds h"
  "delayed_calls (fst (start_purge_history h room_id token dle purge_id)) = delayed_calls h"
  "task_purge_id ` set (background (fst (start_purge_history h room_id token dle purge_id)))
     \<subseteq> insert purge_id (task_purge_id ` set (background h))"
  "map task_purge_id (background (fst (start_purge_history h room_id token dle purge_id))) =
     (if room_id \<in> purges_in_progress_by_room h then map task_purge_id (background h)
      else map task_purge_id (background h) @ [purge_id])"
  by (auto simp: start_purge_history_def purge_history_begin_def PurgeStatus_init_def)

lemma purge_history_for_room_fields:
  "purges_by_id (fst (purge_history_for_room env h item)) = purges_by_id h \<and>
     map task_purge_id (background (fst (purge_history_for_room env h item))) =
       map task_purge_id (background h)
   \<or> purges_by_id (fst (purge_history_for_room env h item)) =
       (purges_by_id h)(random_string env (fst item) \<mapsto> STATUS_ACTIVE) \<and>
     map task_purge_id (background (fst (purge_history_for_room env h item))) =
       map task_purge_id (background h) @ [random_string env (fst item)]"
  "reactor_seconds (fst (purge_history_for_room env h item)) = reactor_seconds h"
  "delayed_calls (fst (purge_history_for_room env h item)) = delayed_calls h"
  by (auto simp: purge_history_for_room_def purge_history_begin_def PurgeStatus_init_def Let_def
      split: option.splits sum.splits prod.splits)

lemma purge_room_fields:
  "purges_by_id (fst (purge_room env h room_id)) = purges_by_id h"
  "background (fst (purge_room env h room_id)) = background h"
  "reactor_seconds (fst (purge_room env h room_id)) = reactor_seconds h"
  "delayed_calls (fst (purge_room env h room_id)) = delayed_calls h"
  by (auto simp: purge_room_def split: sum.splits)

definition background_ids :: "handler \<Rightarrow> string set" where
  "background_ids h = task_purge_id ` set (background h)"

lemma step_finished_absent:
  "q \<notin> background_ids h \<Longrightarrow> step h (PurgeFinished q oc) = h"
proof -
  assume "q \<notin> background_ids h"
  then have "find (\<lambda>t. task_purge_id t = q) (background h) = None"
    by (auto simp: background_ids_def find_None_iff)
  then show ?thesis by simp
qed

lemma step_finished_present:
  assumes "distinct (map task_purge_id (background h))" and "q \<in> background_ids h"
  shows "purges_by_id (step h (PurgeFinished q oc)) =
           (case purges_by_id h q of
              None \<Rightarrow> purges_by_id h
            | Some _ \<Rightarrow> (purges_by_id h)(q \<mapsto> terminal oc))"
    and "background_ids (step h (PurgeFinished q oc)) = background_ids h - {q}"
    and "distinct (map task_purge_id (background (step h (PurgeFinished q oc))))"
    and "delayed_calls (step h (PurgeFinished q oc)) =
           delayed_calls h @ [(reactor_seconds h + 24 * 3600, q)]"
    and "reactor_seconds (step h (PurgeFinished q oc)) = reactor_seconds h"
proof -
  from assms(2) obtain task where f: "find (\<lambda>t. task_purge_id t = q) (background h) = Some task"
    by (cases "find (\<lambda>t. task_purge_id t = q) (background h)")
      (auto simp: background_ids_def find_None_iff)
  then have t: "task \<in> set (background h)" "task_purge_id task = q"
    by (auto simp: find_Some_iff)
  have s: "step h (PurgeFinished q oc) =
             fst (purge_history_end task oc (h\<lparr>background := remove1 task (background h)\<rparr>))"
    using f by simp
  from assms(1) have d: "distinct (background h)" and i: "inj_on task_purge_id (set (background h))"
    by (auto simp: distinct_map)
  show "purges_by_id (step h (PurgeFinished q oc)) =
           (case purges_by_id h q of
              None \<Rightarrow> purges_by_id h
            | Some _ \<Rightarrow> (purges_by_id h)(q \<mapsto> terminal oc))"
    unfolding s using t(2) by (simp add: purge_history_end_fields split: option.splits)
  have "task_purge_id ` (set (background h) - {task}) = task_purge_id ` set (background h) - {q}"
    using i t by (auto simp: inj_on_def)
  then show "background_ids (step h (PurgeFinished q oc)) = background_ids h - {q}"
    unfolding s background_ids_def using d by (simp add: purge_history_end_fields)
  show "distinct (map task_purge_id (background (step h (PurgeFinished q oc))))"
    unfolding s using assms(1) d
    by (auto simp: purge_history_end_fields distinct_map intro: inj_on_subset dest: notin_set_remove1)
  show "delayed_calls (step h (PurgeFinished q oc)) =
           delayed_calls h @ [(reactor_seconds h + 24 * 3600, q)]"
    unfolding s using t(2) by (simp add: purge_history_end_fields)
  show "reactor_seconds (step h (PurgeFinished q oc)) = reactor_seconds h"
    unfolding s by (simp add: purge_history_end_fields)
qed

lemma background_ids_map: "background_ids h = set (map task_purge_id (background h))"
  by (simp add: background_ids_def)

lemma step_create:
  assumes "drawn_id a = Some p"
  shows "(purges_by_id (step h a) = purges_by_id h \<and>
          map task_purge_id (background (step h a)) = map task_purge_id (background h))
         \<or> (purges_by_id (step h a) = (purges_by_id h)(p \<mapsto> STATUS_ACTIVE) \<and>
             map task_purge_id (background (step h a)) = map task_purge_id (background h) @ [p])"
    and "delayed_calls (step h a) = delayed_calls h"
    and "reactor_seconds (step h a) = reactor_seconds h"
proof -
  show "(purges_by_id (step h a) = purges_by_id h \<and>
          map task_purge_id (background (step h a)) = map task_purge_id (background h))
         \<or> (purges_by_id (step h a) = (purges_by_id h)(p \<mapsto> STATUS_ACTIVE) \<and>
             map task_purge_id (background (step h a)) = map task_purge_id (background h) @ [p])"
  proof (cases a)
    case (StartPurge room_id token dle purge_id)
    with assms show ?thesis by (simp add: start_purge_history_fields)
  next
    case (RetentionIteration env item)
    with assms purge_history_for_room_fields(1)[of env h item] show ?thesis by auto
  qed (use assms in simp_all)
  show "delayed_calls (step h a) = delayed_calls h"
    using assms
    by (cases a) (simp_all add: start_purge_history_fields purge_history_for_room_fields)
  show "reactor_seconds (step h a) = reactor_seconds h"
    using assms
    by (cases a) (simp_all add: start_purge_history_fields purge_history_for_room_fields)
qed

definition consistent :: "handler \<Rightarrow> string set \<Rightarrow> bool" where
  "consistent h U =
     (dom (purges_by_id h) \<subseteq> U \<and> background_ids h \<subseteq> U \<and> snd ` set (delayed_calls h) \<subseteq> U \<and>
      distinct (map task_purge_id (background h)) \<and>
      (\<forall>p. (purges_by_id h p = Some STATUS_ACTIVE) = (p \<in> background_ids h)) \<and>
      (\<forall>c \<in> set (delayed_calls h). purges_by_id h (snd c) \<noteq> Some STATUS_ACTIVE))"

lemma consistent_new_handler: "consistent (new_handler d n) {}"
  by (simp add: consistent_def new_handler_def background_ids_def)

lemma terminal_not_active: "terminal oc \<noteq> STATUS_ACTIVE"
  by (cases oc) (simp_all add: terminal_def)

lemma consistent_step_create:
  assumes "consistent h U" and "drawn_id a = Some p" and "p \<notin> U"
  shows "consistent (step h a) (insert p U)"
proof -
  note c = step_create[OF assms(2), of h]
  from c(1) show ?thesis
  proof
    assume "purges_by_id (step h a) = purges_by_id h \<and>
          map task_purge_id (background (step h a)) = map task_purge_id (background h)"
    with assms(1) c(2) show ?thesis
      by (auto simp: consistent_def background_ids_map)
  next
    assume n: "purges_by_id (step h a) = (purges_by_id h)(p \<mapsto> STATUS_ACTIVE) \<and>
             map task_purge_id (background (step h a)) = map task_purge_id (background h) @ [p]"
    from assms(1,3) have "p \<notin> snd ` set (delayed_calls h)" "p \<notin> background_ids h"
      by (auto simp: consistent_def)
    with assms(1) n c(2) show ?thesis
      by (auto simp: consistent_def background_ids_map)
  qed
qed

lemma consistent_step_finished:
  assumes "consistent h U"
  shows "consistent (step h (PurgeFinished q oc)) U"
proof (cases "q \<in> background_ids h")
  case False
  with assms step_finished_absent[OF False, of oc] show ?thesis by (simp del: step.simps)
next
  case True
  from assms have d: "distinct (map task_purge_id (background h))" by (simp add: consistent_def)
  note f = step_finished_present[OF d True, of oc]
  from assms True have a: "purges_by_id h q = Some STATUS_ACTIVE" "q \<in> U"
    by (auto simp: consistent_def)
  with f(1) have m: "purges_by_id (step h (PurgeFinished q oc)) = (purges_by_id h)(q \<mapsto> terminal oc)"
    by simp
  show ?thesis
    unfolding consistent_def m f(2) f(4)
    using assms a f(3) terminal_not_active[of oc]
    by (auto simp: consistent_def)
qed

lemma consistent_step_time:
  assumes "consistent h U"
  shows "consistent (step h (TimePasses d)) U"
  using assms
  by (auto simp: consistent_def background_ids_def reactor_advance_fields split: if_splits)

lemma consistent_step_purge_room:
  assumes "consistent h U"
  shows "consistent (step h (PurgeRoom env room_id)) U"
  using assms unfolding consistent_def background_ids_def step.simps purge_room_fields .

lemma consistent_step:
  assumes "consistent h U" and "\<forall>p. drawn_id a = Some p \<longrightarrow> p \<notin> U"
  shows "consistent (step h a) (U \<union> set_option (drawn_id a))"
proof (cases "drawn_id a")
  case (Some p)
  with assms consistent_step_create[of h U a p] show ?thesis by simp
next
  case None
  then show ?thesis
    using assms(1)
    by (cases a) (simp_all only: consistent_step_finished consistent_step_time consistent_step_purge_room
        option.set Un_empty_right drawn_id.simps option.distinct)
qed

lemma drawn_ids_Cons:
  "drawn_ids (a # as) = (case drawn_id a of None \<Rightarrow> drawn_ids as | Some p \<Rightarrow> p # drawn_ids as)"
  by (simp add: drawn_ids_def map_filter_simps split: option.splits)

lemma drawn_ids_Nil: "drawn_ids [] = []"
  by (simp add: drawn_ids_def map_filter_simps)

lemma drawn_ids_append: "drawn_ids (as @ bs) = drawn_ids as @ drawn_ids bs"
  by (simp add: drawn_ids_def map_filter_def)

lemma consistent_run:
  "consistent h U \<Longrightarrow> distinct (drawn_ids as) \<Longrightarrow> set (drawn_ids as) \<inter> U = {} \<Longrightarrow>
     consistent (run h as) (U \<union> set (drawn_ids as))"
proof (induction as arbitrary: h U)
  case Nil
  then show ?case by (simp add: drawn_ids_Nil)
next
  case (Cons a as)
  show ?case
  proof (cases "drawn_id a")
    case None
    with Cons.prems consistent_step[of h U a] have "consistent (step h a) U" by simp
    from Cons.IH[OF this] Cons.prems None show ?thesis by (simp add: drawn_ids_Cons)
  next
    case (Some p)
    with Cons.prems have p: "p \<notin> U" "distinct (drawn_ids as)" "p \<notin> set (drawn_ids as)"
      "set (drawn_ids as) \<inter> U = {}"
      by (auto simp: drawn_ids_Cons)
    with Cons.prems(1) Some consistent_step[of h U a] have "consistent (step h a) (insert p U)" by simp
    from Cons.IH[OF this p(2)] p have "consistent (run (step h a) as) (insert p U \<union> set (drawn_ids as))"
      by auto
    with Some show ?thesis by (simp add: drawn_ids_Cons)
  qed
qed

lemma step_finished_other:
  "p \<noteq> q \<Longrightarrow> purges_by_id (step h (PurgeFinished q oc)) p = purges_by_id h p"
  "background_ids (step h (PurgeFinished q oc)) \<subseteq> background_ids h"
  "set (delayed_calls (step h (PurgeFinished q oc))) \<subseteq>
     insert (reactor_seconds h + 24 * 3600, q) (set (delayed_calls h))"
  "reactor_seconds (step h (PurgeFinished q oc)) = reactor_seconds h"
proof -
  show "p \<noteq> q \<Longrightarrow> purges_by_id (step h (PurgeFinished q oc)) p = purges_by_id h p"
    by (auto simp: purge_history_end_fields find_Some_iff split: option.splits)
  show "background_ids (step h (PurgeFinished q oc)) \<subseteq> background_ids h"
    using set_remove1_subset[of _ "background h"]
    by (fastforce simp: purge_history_end_fields background_ids_def split: option.splits)
  show "set (delayed_calls (step h (PurgeFinished q oc))) \<subseteq>
     insert (reactor_seconds h + 24 * 3600, q) (set (delayed_calls h))"
    by (auto simp: purge_history_end_fields find_Some_iff split: option.splits)
  show "reactor_seconds (step h (PurgeFinished q oc)) = reactor_seconds h"
    by (simp add: purge_history_end_fields split: option.splits)
qed

lemma step_create_other:
  assumes "drawn_id a = Some q" and "p \<noteq> q"
  shows "purges_by_id (step h a) p = purges_by_id h p"
    and "p \<notin> background_ids h \<Longrightarrow> p \<notin> background_ids (step h a)"
proof -
  note c = step_create[OF assms(1), of h]
  from c(1) assms(2) show "purges_by_id (step h a) p = purges_by_id h p" by auto
  assume n: "p \<notin> background_ids h"
  from c(1) have "background_ids (step h a) \<subseteq> insert q (background_ids h)"
    unfolding background_ids_map by (auto simp del: set_map)
  with n assms(2) show "p \<notin> background_ids (step h a)" by auto
qed

lemma reactor_seconds_step: "reactor_seconds h \<le> reactor_seconds (step h a)"
proof (cases a)
  case (PurgeFinished q oc)
  then show ?thesis using step_finished_other(4)[of h q oc] by (simp del: step.simps)
qed (simp_all add: start_purge_history_fields purge_history_for_room_fields
    reactor_advance_fields purge_room_fields)

lemma reactor_seconds_run: "reactor_seconds h \<le> reactor_seconds (run h as)"
proof (induction as arbitrary: h)
  case Nil
  then show ?case by simp
next
  case (Cons a as)
  from reactor_seconds_step[of h a] Cons.IH[of "step h a"] show ?case by simp
qed

text \<open>
  The entry of \<open>p\<close> has reached the status \<open>s\<close>, no suspended call has the id \<open>p\<close>, and
  every delayed call for \<open>p\<close> is due at \<open>due\<close>.
\<close>

definition settled :: "handler \<Rightarrow> string \<Rightarrow> PurgeStatus \<Rightarrow> nat \<Rightarrow> bool" where
  "settled h p s due =
     (purges_by_id h p = Some s \<and> p \<notin> background_ids h \<and>
      (\<forall>c \<in> set (delayed_calls h). snd c = p \<longrightarrow> fst c = due))"

lemma settled_step:
  assumes "settled h p s due" and "drawn_id a \<noteq> Some p" and "reactor_seconds (step h a) < due"
  shows "settled (step h a) p s due"
proof (cases a)
  case (StartPurge room_id token dle purge_id)
  with assms(2) have d: "drawn_id a = Some purge_id" "purge_id \<noteq> p" by auto
  have e: "p \<noteq> purge_id" using d(2) by simp
  from step_create_other[OF d(1) e, of h] step_create(2)[OF d(1), of h] assms(1) show ?thesis
    by (simp add: settled_def)
next
  case (RetentionIteration env item)
  with assms(2) have d: "drawn_id a = Some (random_string env (fst item))"
    "random_string env (fst item) \<noteq> p" by auto
  have e: "p \<noteq> random_string env (fst item)" using d(2) by simp
  from step_create_other[OF d(1) e, of h] step_create(2)[OF d(1), of h] assms(1) show ?thesis
    by (simp add: settled_def)
next
  case (PurgeFinished q oc)
  show ?thesis
  proof (cases "q = p")
    case True
    with assms(1) have "q \<notin> background_ids h" by (simp add: settled_def)
    from step_finished_absent[OF this, of oc] assms(1) show ?thesis
      unfolding PurgeFinished by (simp del: step.simps)
  next
    case False
    then have "p \<noteq> q" by simp
    from step_finished_other(1)[OF this, of h oc] step_finished_other(2,3)[of h q oc] assms(1) False
    show ?thesis unfolding PurgeFinished settled_def by fastforce
  qed
next
  case (TimePasses d)
  with assms(3) have "reactor_seconds h + d < due" by (simp add: reactor_advance_fields)
  with assms(1) show ?thesis unfolding TimePasses settled_def
    by (auto simp: reactor_advance_fields background_ids_def)
next
  case (PurgeRoom env room_id)
  with assms(1) show ?thesis
    by (simp add: settled_def purge_room_fields background_ids_def)
qed

lemma settled_run:
  "settled h p s due \<Longrightarrow> p \<notin> set (drawn_ids as) \<Longrightarrow> reactor_seconds (run h as) < due \<Longrightarrow>
     settled (run h as) p s due"
proof (induction as arbitrary: h)
  case Nil
  then show ?case by simp
next
  case (Cons a as)
  from Cons.prems(2) have d: "drawn_id a \<noteq> Some p" "p \<notin> set (drawn_ids as)"
    by (auto simp: drawn_ids_Cons split: option.splits)
  from reactor_seconds_run[of "step h a" as] Cons.prems(3)
  have "reactor_seconds (step h a) < due" by simp
  from settled_step[OF Cons.prems(1) d(1) this] have "settled (step h a) p s due" .
  from Cons.IH[OF this d(2)] Cons.prems(3) show ?case by simp
qed

lemma kept_step:
  assumes "p \<notin> background_ids h" and "drawn_id a \<noteq> Some p"
  shows "(purges_by_id (step h a) p = purges_by_id h p \<or> purges_by_id (step h a) p = None)
         \<and> p \<notin> background_ids (step h a)"
proof (cases a)
  case (StartPurge room_id token dle purge_id)
  with assms(2) have d: "drawn_id a = Some purge_id" "purge_id \<noteq> p" by auto
  have e: "p \<noteq> purge_id" using d(2) by simp
  from step_create_other[OF d(1) e, of h] assms(1) show ?thesis by simp
next
  case (RetentionIteration env item)
  with assms(2) have d: "drawn_id a = Some (random_string env (fst item))"
    "random_string env (fst item) \<noteq> p" by auto
  have e: "p \<noteq> random_string env (fst item)" using d(2) by simp
  from step_create_other[OF d(1) e, of h] assms(1) show ?thesis by simp
next
  case (PurgeFinished q oc)
  show ?thesis
  proof (cases "q = p")
    case True
    with assms(1) have "q \<notin> background_ids h" by simp
    from step_finished_absent[OF this, of oc] assms(1) show ?thesis
      unfolding PurgeFinished by (simp del: step.simps)
  next
    case False
    then have "p \<noteq> q" by simp
    from step_finished_other(1)[OF this, of h oc] step_finished_other(2)[of h q oc] assms(1)
    show ?thesis unfolding PurgeFinished by auto
  qed
next
  case (TimePasses d)
  with assms(1) show ?thesis
    by (auto simp: reactor_advance_fields background_ids_def)
next
  case (PurgeRoom env room_id)
  with assms(1) show ?thesis by (simp add: purge_room_fields background_ids_def)
qed

lemma kept_run:
  "p \<notin> background_ids h \<Longrightarrow> p \<notin> set (drawn_ids as) \<Longrightarrow>
     (purges_by_id (run h as) p = purges_by_id h p \<or> purges_by_id (run h as) p = None)
     \<and> p \<notin> background_ids (run h as)"
proof (induction as arbitrary: h)
  case Nil
  then show ?case by simp
next
  case (Cons a as)
  from Cons.prems(2) have d: "drawn_id a \<noteq> Some p" "p \<notin> set (drawn_ids as)"
    by (auto simp: drawn_ids_Cons split: option.splits)
  note k = kept_step[OF Cons.prems(1) d(1)]
  from Cons.IH[of "step h a"] k d(2) show ?case by auto
qed

lemma run_append: "run h (as @ bs) = run (run h as) bs"
  by (induction as arbitrary: h) simp_all

lemma entry_starts_active:
  assumes "purges_by_id h p = None"
  shows "purges_by_id (step h a) p = None \<or> purges_by_id (step h a) p = Some STATUS_ACTIVE"
proof (cases a)
  case (StartPurge room_id token dle purge_id)
  with assms show ?thesis by (simp add: start_purge_history_fields)
next
  case (RetentionIteration env item)
  with assms purge_history_for_room_fields(1)[of env h item] show ?thesis by auto
next
  case (PurgeFinished q oc)
  with assms show ?thesis
    by (auto simp: purge_history_end_fields split: option.splits)
next
  case (TimePasses d)
  with assms show ?thesis by (simp add: reactor_advance_fields)
next
  case (PurgeRoom env room_id)
  with assms show ?thesis by (simp add: purge_room_fields)
qed

lemma consistent_reachable:
  "distinct (drawn_ids as) \<Longrightarrow> consistent (run (new_handler d n) as) (set (drawn_ids as))"
  using consistent_run[OF consistent_new_handler, of as d n] by simp

text \<open>
  C3. Take any run of the handler from its start in which \<^verbatim>\<open>random_string\<close> never
  returns the same string twice, and a purge whose entry is active when its storage
  purge returns or raises. Then that step sets the entry to complete when the storage
  purge returned and to failed when it raised. From then on the entry is that status or
  gone, and it is that status as long as the reactor's clock is less than 24 hours past
  the step. Before that step the entry was never anything but absent or active, and an
  entry that comes into being is active.
\<close>

theorem purge_status_lifecycle:
  assumes "distinct (drawn_ids (before @ PurgeFinished p oc # after))"
    and "h1 = run (new_handler default_lifetime hostname) before"
    and "purges_by_id h1 p = Some STATUS_ACTIVE"
    and "h2 = step h1 (PurgeFinished p oc)"
    and "h3 = run h2 after"
  shows "purges_by_id h2 p = Some (terminal oc)
         \<and> (reactor_seconds h3 < reactor_seconds h2 + 24 * 3600 \<longrightarrow>
              purges_by_id h3 p = Some (terminal oc))
         \<and> (purges_by_id h3 p = Some (terminal oc) \<or> purges_by_id h3 p = None)
         \<and> (\<forall>k. purges_by_id (run (new_handler default_lifetime hostname) (take k before)) p = None
                \<or> purges_by_id (run (new_handler default_lifetime hostname) (take k before)) p
                    = Some STATUS_ACTIVE)
         \<and> (\<forall>h a. purges_by_id h p = None \<longrightarrow>
                purges_by_id (step h a) p = None \<or> purges_by_id (step h a) p = Some STATUS_ACTIVE)"
proof -
  let ?init = "new_handler default_lifetime hostname"
  from assms(1) have db: "distinct (drawn_ids before)"
    and da: "set (drawn_ids before) \<inter> set (drawn_ids after) = {}"
    by (auto simp: drawn_ids_append drawn_ids_Cons)
  from consistent_reachable[OF db] assms(2)
  have c1: "consistent h1 (set (drawn_ids before))" by simp
  with assms(3) have pb: "p \<in> background_ids h1" and pu: "p \<in> set (drawn_ids before)"
    and d1: "distinct (map task_purge_id (background h1))"
    by (auto simp: consistent_def)
  from pu da have pa: "p \<notin> set (drawn_ids after)" by auto
  note f = step_finished_present[OF d1 pb, of oc]
  from f(1) assms(3,4) have s2: "purges_by_id h2 p = Some (terminal oc)" by simp
  from f(2) assms(4) have b2: "p \<notin> background_ids h2" by simp
  from c1 assms(3) have "\<forall>c \<in> set (delayed_calls h1). snd c \<noteq> p"
    by (auto simp: consistent_def)
  with f(4) assms(4)
  have t2: "\<forall>c \<in> set (delayed_calls h2). snd c = p \<longrightarrow> fst c = reactor_seconds h1 + 24 * 3600"
    by auto
  from f(5) assms(4) have r2: "reactor_seconds h2 = reactor_seconds h1" by simp
  from s2 b2 t2 r2 have st: "settled h2 p (terminal oc) (reactor_seconds h2 + 24 * 3600)"
    by (simp add: settled_def)
  have a2: "reactor_seconds h3 < reactor_seconds h2 + 24 * 3600 \<longrightarrow>
              purges_by_id h3 p = Some (terminal oc)"
  proof
    assume "reactor_seconds h3 < reactor_seconds h2 + 24 * 3600"
    with settled_run[OF st pa] assms(5) show "purges_by_id h3 p = Some (terminal oc)"
      by (simp add: settled_def)
  qed
  from kept_run[OF b2 pa] s2 assms(5)
  have a3: "purges_by_id h3 p = Some (terminal oc) \<or> purges_by_id h3 p = None" by auto
  have a4: "\<forall>k. purges_by_id (run ?init (take k before)) p = None
                \<or> purges_by_id (run ?init (take k before)) p = Some STATUS_ACTIVE"
  proof (intro allI)
    fix k
    let ?hk = "run ?init (take k before)"
    show "purges_by_id ?hk p = None \<or> purges_by_id ?hk p = Some STATUS_ACTIVE"
    proof (rule ccontr)
      assume n: "\<not> (purges_by_id ?hk p = None \<or> purges_by_id ?hk p = Some STATUS_ACTIVE)"
      have sp: "before = take k before @ drop k before" by simp
      from db have dk: "distinct (drawn_ids (take k before))"
        and dd: "set (drawn_ids (take k before)) \<inter> set (drawn_ids (drop k before)) = {}"
        using drawn_ids_append[of "take k before" "drop k before"] by auto
      from consistent_reachable[OF dk]
      have ck: "consistent ?hk (set (drawn_ids (take k before)))" .
      from n ck have "p \<notin> background_ids ?hk" and "p \<in> set (drawn_ids (take k before))"
        by (auto simp: consistent_def)
      with dd have "p \<notin> background_ids ?hk" and "p \<notin> set (drawn_ids (drop k before))" by auto
      from kept_run[OF this]
      have "purges_by_id (run ?hk (drop k before)) p = purges_by_id ?hk p
            \<or> purges_by_id (run ?hk (drop k before)) p = None" by simp
      moreover have "run ?hk (drop k before) = h1"
        using run_append[of ?init "take k before" "drop k before"] assms(2) by simp
      ultimately show False using n assms(3) by auto
    qed
  qed
  have a5: "\<forall>h a. purges_by_id h p = None \<longrightarrow>
                purges_by_id (step h a) p = None \<or> purges_by_id (step h a) p = Some STATUS_ACTIVE"
    using entry_starts_active by blast
  from s2 a2 a3 a4 a5 show ?thesis by blast
qed

lemmas machine_defs = new_handler_def start_purge_history_def purge_history_begin_def
  purge_history_end_def set_status_def clear_purge_def fire_def reactor_advance_def
  PurgeStatus_init_def terminal_def drawn_ids_def map_filter_simps Let_def

theorem purge_status_lifecycle_witness:
  "purges_by_id (run (new_handler None ''hs'') [StartPurge ''!r'' ''t1-2'' None ''p1'']) ''p1''
     = Some STATUS_ACTIVE
   \<and> purges_by_id (run (new_handler None ''hs'')
        [StartPurge ''!r'' ''t1-2'' None ''p1'', PurgeFinished ''p1'' Returned]) ''p1''
     = Some STATUS_COMPLETE
   \<and> purges_by_id (run (new_handler None ''hs'')
        [StartPurge ''!r'' ''t1-2'' None ''p1'', PurgeFinished ''p1'' Returned, TimePasses 86399]) ''p1''
     = Some STATUS_COMPLETE
   \<and> purges_by_id (run (new_handler None ''hs'')
        [StartPurge ''!r'' ''t1-2'' None ''p1'', PurgeFinished ''p1'' Returned, TimePasses 86400]) ''p1''
     = None
   \<and> purges_by_id (run (new_handler None ''hs'')
        [StartPurge ''!r'' ''t1-2'' None ''p1'', TimePasses 5, PurgeFinished ''p1'' Raised,
         TimePasses 86399, StartPurge ''!r'' ''t3-4'' None ''p2'']) ''p1''
     = Some STATUS_FAILED"
  using purge_status_lifecycle[of "[StartPurge ''!r'' ''t1-2'' None ''p1'']" "''p1''" Returned
      "[TimePasses 86399]" "run (new_handler None ''hs'') [StartPurge ''!r'' ''t1-2'' None ''p1'']"
      None "''hs''"
      "step (run (new_handler None ''hs'') [StartPurge ''!r'' ''t1-2'' None ''p1''])
         (PurgeFinished ''p1'' Returned)"
      "run (step (run (new_handler None ''hs'') [StartPurge ''!r'' ''t1-2'' None ''p1''])
         (PurgeFinished ''p1'' Returned)) [TimePasses 86399]"]
    purge_status_lifecycle[of "[StartPurge ''!r'' ''t1-2'' None ''p1'']" "''p1''" Returned
      "[TimePasses 86400]" "run (new_handler None ''hs'') [StartPurge ''!r'' ''t1-2'' None ''p1'']"
      None "''hs''"
      "step (run (new_handler None ''hs'') [StartPurge ''!r'' ''t1-2'' None ''p1''])
         (PurgeFinished ''p1'' Returned)"
      "run (step (run (new_handler None ''hs'') [StartPurge ''!r'' ''t1-2'' None ''p1''])
         (PurgeFinished ''p1'' Returned)) [TimePasses 86400]"]
    purge_status_lifecycle[of "[StartPurge ''!r'' ''t1-2'' None ''p1'', TimePasses 5]" "''p1''" Raised
      "[TimePasses 86399, StartPurge ''!r'' ''t3-4'' None ''p2'']"
      "run (new_handler None ''hs'') [StartPurge ''!r'' ''t1-2'' None ''p1'', TimePasses 5]"
      None "''hs''"
      "step (run (new_handler None ''hs'') [StartPurge ''!r'' ''t1-2'' None ''p1'', TimePasses 5])
         (PurgeFinished ''p1'' Raised)"
      "run (step (run (new_handler None ''hs'') [StartPurge ''!r'' ''t1-2'' None ''p1'', TimePasses 5])
         (PurgeFinished ''p1'' Raised)) [TimePasses 86399, StartPurge ''!r'' ''t3-4'' None ''p2'']"]
  by (simp add: machine_defs)

section \<open>Readers and writers of a room\<close>

text \<open>A writer that holds the room is its only holder; the first in the queue cannot be let in.\<close>

definition exclusive :: "room_lock \<Rightarrow> bool" where
  "exclusive l =
     ((list_all (\<lambda>h. snd h = Read) (holders l) \<or> (\<exists>c. holders l = [(c, Write)])) \<and>
      (case waiting l of [] \<Rightarrow> True | w # ws \<Rightarrow> \<not> compatible (snd w) (holders l)))"

lemma exclusive_admit:
  "list_all (\<lambda>h. snd h = Read) hs \<or> (\<exists>c. hs = [(c, Write)]) \<Longrightarrow> exclusive (admit hs ws)"
proof (induction ws arbitrary: hs)
  case Nil
  then show ?case by (simp add: exclusive_def)
next
  case (Cons w ws)
  show ?case
  proof (cases "compatible (snd w) hs")
    case False
    with Cons.prems show ?thesis by (simp add: exclusive_def)
  next
    case True
    have "list_all (\<lambda>h. snd h = Read) (hs @ [w]) \<or> (\<exists>c. hs @ [w] = [(c, Write)])"
    proof (cases "snd w")
      case Read
      with True show ?thesis by simp
    next
      case Write
      with True have "hs @ [w] = [(fst w, Write)]" by (cases w) simp
      then show ?thesis by blast
    qed
    from Cons.IH[OF this] True show ?thesis by simp
  qed
qed

lemma exclusive_filter:
  assumes "list_all (\<lambda>h. snd h = Read) hs \<or> (\<exists>c. hs = [(c, Write)])"
  shows "list_all (\<lambda>h. snd h = Read) (filter P hs) \<or> (\<exists>c. filter P hs = [(c, Write)])"
  using assms by (auto simp: list_all_iff)

lemma exclusive_acquire: "exclusive l \<Longrightarrow> exclusive (acquire c m l)"
  unfolding acquire_def by (intro exclusive_admit) (simp add: exclusive_def)

lemma exclusive_release: "exclusive l \<Longrightarrow> exclusive (release c l)"
  unfolding release_def using exclusive_filter[of "holders l"]
  by (intro exclusive_admit) (auto simp: exclusive_def)

lemma exclusive_step: "\<forall>r. exclusive (locks r) \<Longrightarrow> exclusive (lock_step locks a r)"
  by (cases a) (simp_all add: exclusive_acquire exclusive_release)

lemma exclusive_run: "\<forall>r. exclusive (locks r) \<Longrightarrow> exclusive (lock_run locks as r)"
proof (induction as arbitrary: locks)
  case Nil
  then show ?case by simp
next
  case (Cons a as)
  from Cons.prems have "\<forall>r. exclusive (lock_step locks a r)" using exclusive_step by blast
  from Cons.IH[OF this] show ?case by simp
qed

lemma exclusive_unlocked: "exclusive unlocked"
  by (simp add: exclusive_def unlocked_def)

lemma acquire_blocked:
  assumes "exclusive l" and "\<not> (waiting l = [] \<and> compatible m (holders l))"
  shows "acquire c m l = l\<lparr>waiting := waiting l @ [(c, m)]\<rparr>"
proof (cases "waiting l")
  case Nil
  with assms show ?thesis by (simp add: acquire_def)
next
  case (Cons w ws)
  with assms(1) show ?thesis by (simp add: acquire_def exclusive_def)
qed

lemma acquire_granted:
  assumes "waiting l = []" and "compatible m (holders l)"
  shows "acquire c m l = l\<lparr>holders := holders l @ [(c, m)]\<rparr>"
  using assms by (simp add: acquire_def)

lemma writer_excludes: "\<not> compatible m [(w, Write)]"
  by (cases m) simp_all

lemma admit_writer_first:
  "admit [] ((w, Write) # ws) = \<lparr>holders = [(w, Write)], waiting = ws\<rparr>"
  by (cases ws) (simp_all add: writer_excludes)

text \<open>
  C8. In every state the lock can reach: a writer that holds a room is its only holder,
  so a purge holds the room with no \<^verbatim>\<open>get_messages\<close> read beside it; a read asked for
  while a writer holds the room is queued; a write (\<^verbatim>\<open>_purge_history\<close> or
  \<^verbatim>\<open>purge_room\<close>) asked for while anybody holds the room is queued, and is let in
  when the last holder has released; a read asked for while only readers hold the room
  and nobody waits joins them; and what happens on one room leaves every other room's
  lock as it was.
\<close>

theorem pagination_lock_exclusion:
  assumes "locks = lock_run (\<lambda>r. unlocked) as"
  shows "((c, Write) \<in> set (holders (locks r)) \<longrightarrow> holders (locks r) = [(c, Write)])
    \<and> ((\<exists>w. (w, Write) \<in> set (holders (locks r))) \<longrightarrow>
         lock_step locks (Acquire c GetMessagesMethod r) r =
           (locks r)\<lparr>waiting := waiting (locks r) @ [(c, Read)]\<rparr>)
    \<and> (holders (locks r) \<noteq> [] \<and> pagination_lock_mode meth = Write \<longrightarrow>
         lock_step locks (Acquire c meth r) r =
           (locks r)\<lparr>waiting := waiting (locks r) @ [(c, Write)]\<rparr>)
    \<and> (waiting (locks r) = [] \<and> list_all (\<lambda>h. snd h = Read) (holders (locks r)) \<longrightarrow>
         lock_step locks (Acquire c GetMessagesMethod r) r =
           (locks r)\<lparr>holders := holders (locks r) @ [(c, Read)]\<rparr>)
    \<and> (filter (\<lambda>h. fst h \<noteq> c) (holders (locks r)) = [] \<and> waiting (locks r) = (w, Write) # ws \<longrightarrow>
         lock_step locks (Release c r) r = \<lparr>holders = [(w, Write)], waiting = ws\<rparr>)
    \<and> (r' \<noteq> r \<longrightarrow> lock_step locks (Acquire c meth r) r' = locks r'
                  \<and> lock_step locks (Release c r) r' = locks r')"
proof -
  have e: "exclusive (locks r)"
    using exclusive_run[of "\<lambda>r. unlocked" as r] exclusive_unlocked assms by simp
  have a1: "(c, Write) \<in> set (holders (locks r)) \<longrightarrow> holders (locks r) = [(c, Write)]"
    using e by (auto simp: exclusive_def list_all_iff)
  have a2: "(\<exists>w. (w, Write) \<in> set (holders (locks r))) \<longrightarrow>
         lock_step locks (Acquire c GetMessagesMethod r) r =
           (locks r)\<lparr>waiting := waiting (locks r) @ [(c, Read)]\<rparr>"
  proof
    assume "\<exists>w. (w, Write) \<in> set (holders (locks r))"
    then have "\<not> compatible Read (holders (locks r))" by (force simp: list_all_iff)
    then show "lock_step locks (Acquire c GetMessagesMethod r) r =
           (locks r)\<lparr>waiting := waiting (locks r) @ [(c, Read)]\<rparr>"
      using acquire_blocked[OF e, of Read c] by simp
  qed
  have a3: "holders (locks r) \<noteq> [] \<and> pagination_lock_mode meth = Write \<longrightarrow>
         lock_step locks (Acquire c meth r) r =
           (locks r)\<lparr>waiting := waiting (locks r) @ [(c, Write)]\<rparr>"
    using acquire_blocked[OF e, of Write c] by simp
  have a4: "waiting (locks r) = [] \<and> list_all (\<lambda>h. snd h = Read) (holders (locks r)) \<longrightarrow>
         lock_step locks (Acquire c GetMessagesMethod r) r =
           (locks r)\<lparr>holders := holders (locks r) @ [(c, Read)]\<rparr>"
    using acquire_granted[of "locks r" Read c] by simp
  have a5: "filter (\<lambda>h. fst h \<noteq> c) (holders (locks r)) = [] \<and> waiting (locks r) = (w, Write) # ws \<longrightarrow>
         lock_step locks (Release c r) r = \<lparr>holders = [(w, Write)], waiting = ws\<rparr>"
    by (simp add: release_def admit_writer_first del: admit.simps)
  have a6: "r' \<noteq> r \<longrightarrow> lock_step locks (Acquire c meth r) r' = locks r'
                  \<and> lock_step locks (Release c r) r' = locks r'"
    by simp
  from a1 a2 a3 a4 a5 a6 show ?thesis by blast
qed

lemmas lock_defs = unlocked_def acquire_def release_def

theorem pagination_lock_exclusion_witness:
  "lock_run (\<lambda>r. unlocked)
     [Acquire 1 GetMessagesMethod ''!r'', Acquire 2 GetMessagesMethod ''!r'',
      Acquire 3 PurgeHistoryMethod ''!r'', Acquire 4 GetMessagesMethod ''!r'',
      Acquire 5 PurgeRoomMethod ''!s''] ''!r''
     = \<lparr>holders = [(1, Read), (2, Read)], waiting = [(3, Write), (4, Read)]\<rparr>
   \<and> lock_run (\<lambda>r. unlocked)
     [Acquire 1 GetMessagesMethod ''!r'', Acquire 2 GetMessagesMethod ''!r'',
      Acquire 3 PurgeHistoryMethod ''!r'', Acquire 4 GetMessagesMethod ''!r'',
      Acquire 5 PurgeRoomMethod ''!s''] ''!s''
     = \<lparr>holders = [(5, Write)], waiting = []\<rparr>
   \<and> lock_run (\<lambda>r. unlocked)
     [Acquire 1 GetMessagesMethod ''!r'', Acquire 2 GetMessagesMethod ''!r'',
      Acquire 3 PurgeHistoryMethod ''!r'', Acquire 4 GetMessagesMethod ''!r'',
      Release 1 ''!r'', Release 2 ''!r''] ''!r''
     = \<lparr>holders = [(3, Write)], waiting = [(4, Read)]\<rparr>
   \<and> lock_run (\<lambda>r. unlocked)
     [Acquire 1 GetMessagesMethod ''!r'', Acquire 2 GetMessagesMethod ''!r'',
      Acquire 3 PurgeHistoryMethod ''!r'', Acquire 4 GetMessagesMethod ''!r'',
      Release 1 ''!r'', Release 2 ''!r'', Release 3 ''!r''] ''!r''
     = \<lparr>holders = [(4, Read)], waiting = []\<rparr>"
  using pagination_lock_exclusion[where locks =
      "lock_run (\<lambda>r. unlocked)
         [Acquire 1 GetMessagesMethod ''!r'', Acquire 2 GetMessagesMethod ''!r'',
          Acquire 3 PurgeHistoryMethod ''!r'', Acquire 4 GetMessagesMethod ''!r'',
          Release 1 ''!r'', Release 2 ''!r'']"
      and as = "[Acquire 1 GetMessagesMethod ''!r'', Acquire 2 GetMessagesMethod ''!r'',
          Acquire 3 PurgeHistoryMethod ''!r'', Acquire 4 GetMessagesMethod ''!r'',
          Release 1 ''!r'', Release 2 ''!r'']"
      and c = 3 and r = "''!r''" and meth = PurgeRoomMethod and w = 3 and ws = "[(4, Read)]"
      and r' = "''!s''"]
  by (simp add: lock_defs)

end
